theory Spec2Isabelle
  imports Complex_Main
begin

section \<open>Decoded JSON values and the Python operations the scripts apply to them\<close>

text \<open>
  The three scripts (\<^verbatim>\<open>01_simple_pipeline.py\<close>, \<^verbatim>\<open>02_incremental_load.py\<close>,
  \<^verbatim>\<open>bigquery_pipeline.py\<close>) work on whatever \<^verbatim>\<open>response.json()\<close> returns: a Python
  value built from \<^verbatim>\<open>None\<close>, \<^verbatim>\<open>bool\<close>, \<^verbatim>\<open>int\<close>, \<^verbatim>\<open>float\<close>, \<^verbatim>\<open>str\<close>,
  \<^verbatim>\<open>list\<close> and \<^verbatim>\<open>dict\<close>. A \<^verbatim>\<open>dict\<close> is the list of its items (keys distinct, in
  insertion order); a \<^verbatim>\<open>str\<close> is the list of its code points, one \<open>char\<close> standing
  for one code point. A finite \<^verbatim>\<open>float\<close> is the rational it denotes; Python compares
  an \<^verbatim>\<open>int\<close> with a \<^verbatim>\<open>float\<close> exactly.
\<close>

datatype pyfloat = Finite rat | PosInf | NegInf | NaN

datatype json =
    JNull
  | JBool bool
  | JInt int
  | JFloat pyfloat
  | JStr string
  | JArr "json list"
  | JObj "(string \<times> json) list"

text \<open>The exceptions the extractor functions can end with.\<close>

datatype error =
    ConnectionError
  | HTTPError nat
  | JSONDecodeError
  | KeyError string
  | TypeError
  | ValueError

text \<open>A yielded record is a Python \<^verbatim>\<open>dict\<close> with string keys, in the order of the literal.\<close>

type_synonym row = "(string \<times> json) list"

text \<open>\<^verbatim>\<open>v[k]\<close> with a string key: only a \<^verbatim>\<open>dict\<close> accepts it.\<close>

fun subscript :: "json \<Rightarrow> string \<Rightarrow> error + json" where
  "subscript (JObj kvs) k = (case map_of kvs k of None \<Rightarrow> Inl (KeyError k) | Some v \<Rightarrow> Inr v)"
| "subscript _ k = Inl TypeError"

text \<open>\<^verbatim>\<open>len(v)\<close>: defined on \<^verbatim>\<open>str\<close>, \<^verbatim>\<open>list\<close> and \<^verbatim>\<open>dict\<close>.\<close>

fun py_len :: "json \<Rightarrow> error + nat" where
  "py_len (JStr s) = Inr (length s)"
| "py_len (JArr xs) = Inr (length xs)"
| "py_len (JObj kvs) = Inr (length kvs)"
| "py_len _ = Inl TypeError"

text \<open>
  \<^verbatim>\<open>for x in v\<close>: a \<^verbatim>\<open>list\<close> gives its elements, a \<^verbatim>\<open>dict\<close> its keys, a
  \<^verbatim>\<open>str\<close> its one-character strings; nothing else is iterable.
\<close>

fun py_iter :: "json \<Rightarrow> error + json list" where
  "py_iter (JArr xs) = Inr xs"
| "py_iter (JObj kvs) = Inr (map (\<lambda>kv. JStr (fst kv)) kvs)"
| "py_iter (JStr s) = Inr (map (\<lambda>c. JStr [c]) s)"
| "py_iter _ = Inl TypeError"

text \<open>
  \<^verbatim>\<open>v > n\<close> for an \<^verbatim>\<open>int\<close> \<open>n\<close>: numbers compare by value (\<^verbatim>\<open>bool\<close> is a subclass
  of \<^verbatim>\<open>int\<close>, \<^verbatim>\<open>nan\<close> is greater than nothing), everything else raises
  \<^verbatim>\<open>TypeError\<close>.
\<close>

fun py_gt :: "json \<Rightarrow> int \<Rightarrow> error + bool" where
  "py_gt (JInt i) n = Inr (n < i)"
| "py_gt (JBool b) n = Inr (n < (if b then 1 else 0))"
| "py_gt (JFloat (Finite q)) n = Inr (of_int n < q)"
| "py_gt (JFloat PosInf) n = Inr True"
| "py_gt (JFloat NegInf) n = Inr False"
| "py_gt (JFloat NaN) n = Inr False"
| "py_gt _ n = Inl TypeError"

section \<open>HTTP as the extractors see it\<close>

datatype http_method = GET | HEAD | POST | PUT | PATCH | DELETE

record http_request =
  meth :: http_method
  url :: string

text \<open>
  A response carries its status code and its body; \<open>body = None\<close> is a body that is not
  JSON, on which \<^verbatim>\<open>response.json()\<close> raises.
\<close>

record response =
  status_code :: nat
  body :: "json option"

text \<open>
  The network is a parameter: \<open>net req\<close> is what \<^verbatim>\<open>requests.get\<close> does with the
  request, a response or the exception it raises.
\<close>

type_synonym network = "http_request \<Rightarrow> error + response"

text \<open>
  Modelled from the spec: \<^verbatim>\<open>Response.raise_for_status\<close> belongs to the HTTP client
  library, whose code is not part of the repository. Section 7 of the specification gives
  its contract: "raise on non-2xx HTTP response".
\<close>

definition raise_for_status :: "response \<Rightarrow> error option" where
  "raise_for_status r =
     (if 200 \<le> status_code r \<and> status_code r < 300 then None
      else Some (HTTPError (status_code r)))"

definition response_json :: "response \<Rightarrow> error + json" where
  "response_json r = (case body r of None \<Rightarrow> Inl JSONDecodeError | Some v \<Rightarrow> Inr v)"

definition users_url :: string where
  "users_url = ''https://jsonplaceholder.typicode.com/users''"

definition posts_url :: string where
  "posts_url = ''https://jsonplaceholder.typicode.com/posts''"

section \<open>Generators\<close>

text \<open>
  What running an extractor to its end produces: the requests it issued, the records it
  yielded, and the exception that ended it (\<open>None\<close> when it was exhausted normally). A
  generator that raises in the middle has already yielded the records before.
\<close>

record run =
  requests :: "http_request list"
  yielded :: "row list"
  raised :: "error option"

text \<open>
  The first three statements of every extractor:
  \<^verbatim>\<open>response = requests.get(URL); response.raise_for_status(); data = response.json()\<close>.
\<close>

definition fetch :: "network \<Rightarrow> string \<Rightarrow> http_request list \<times> (error + json)" where
  "fetch net u =
     (let req = \<lparr>meth = GET, url = u\<rparr> in
      case net req of
        Inl e \<Rightarrow> ([req], Inl e)
      | Inr resp \<Rightarrow>
          (case raise_for_status resp of
             Some e \<Rightarrow> ([req], Inl e)
           | None \<Rightarrow> ([req], response_json resp)))"

text \<open>
  \<^verbatim>\<open>for x in xs: yield {...}\<close>. The record of the element \<open>x\<close> is built by \<open>mk k x\<close>,
  where \<open>k\<close> counts the records yielded before it (it indexes the clock readings); the
  first element whose record cannot be built ends the generator with that exception.
\<close>

fun for_yield :: "(nat \<Rightarrow> json \<Rightarrow> error + row) \<Rightarrow> nat \<Rightarrow> json list \<Rightarrow> row list \<times> error option" where
  "for_yield mk k [] = ([], None)"
| "for_yield mk k (x # xs) =
     (case mk k x of
        Inl e \<Rightarrow> ([], Some e)
      | Inr r \<Rightarrow> (case for_yield mk (Suc k) xs of (rs, e) \<Rightarrow> (r # rs, e)))"

text \<open>Sequencing of sub-expressions that may raise.\<close>

definition and_then :: "error + 'a \<Rightarrow> ('a \<Rightarrow> error + 'b) \<Rightarrow> error + 'b" where
  "and_then m f = (case m of Inl e \<Rightarrow> Inl e | Inr a \<Rightarrow> f a)"

text \<open>
  The clock: \<open>clock n\<close> is the text of the \<open>n\<close>-th \<^verbatim>\<open>datetime.now().isoformat()\<close> of the
  run, counted from 0.
\<close>

type_synonym clock = "nat \<Rightarrow> string"

section \<open>\<^verbatim>\<open>02_incremental_load.py\<close>\<close>

text \<open>
  \<^verbatim>\<open>new_posts = [p for p in posts if p['id'] > last_post_id.last_value]\<close>: the
  comprehension is evaluated whole, before the first record is yielded, and raises as soon
  as one element has no \<^verbatim>\<open>'id'\<close> or an \<^verbatim>\<open>'id'\<close> that does not compare with an
  \<^verbatim>\<open>int\<close>.
\<close>

fun new_posts :: "int \<Rightarrow> json list \<Rightarrow> error + json list" where
  "new_posts last_value [] = Inr []"
| "new_posts last_value (p # ps) =
     and_then (subscript p ''id'') (\<lambda>i.
     and_then (py_gt i last_value) (\<lambda>keep.
     and_then (new_posts last_value ps) (\<lambda>rest.
       Inr (if keep then p # rest else rest))))"

definition incremental_post_row :: "clock \<Rightarrow> nat \<Rightarrow> json \<Rightarrow> error + row" where
  "incremental_post_row clock k post =
     and_then (subscript post ''id'') (\<lambda>post_id.
     and_then (subscript post ''userId'') (\<lambda>user_id.
     and_then (subscript post ''title'') (\<lambda>title.
     and_then (subscript post ''body'') (\<lambda>body.
       Inr [(''post_id'', post_id),
            (''user_id'', user_id),
            (''title'', title),
            (''body'', body),
            (''loaded_at'', JStr (clock k))]))))"

definition load_posts_incremental :: "network \<Rightarrow> clock \<Rightarrow> int \<Rightarrow> run" where
  "load_posts_incremental net clock last_value =
     (case fetch net posts_url of
        (reqs, Inl e) \<Rightarrow> \<lparr>requests = reqs, yielded = [], raised = Some e\<rparr>
      | (reqs, Inr posts) \<Rightarrow>
          (case and_then (py_iter posts) (\<lambda>items.
                and_then (new_posts last_value items) (\<lambda>new.
                and_then (py_len posts) (\<lambda>total. Inr new))) of
             Inl e \<Rightarrow> \<lparr>requests = reqs, yielded = [], raised = Some e\<rparr>
           | Inr new \<Rightarrow>
               (case for_yield (incremental_post_row clock) 0 new of
                  (rows, e) \<Rightarrow> \<lparr>requests = reqs, yielded = rows, raised = e\<rparr>)))"

text \<open>\<^verbatim>\<open>v[k1][k2]...\<close>, left to right.\<close>

fun lookup :: "json \<Rightarrow> string list \<Rightarrow> error + json" where
  "lookup v [] = Inr v"
| "lookup v (k # ks) = and_then (subscript v k) (\<lambda>w. lookup w ks)"

text \<open>
  \<^verbatim>\<open>load_users_with_timestamp\<close> reads the clock twice for each record
  (\<^verbatim>\<open>loaded_at\<close>, then \<^verbatim>\<open>updated_at\<close>).
\<close>

definition timestamp_user_row :: "clock \<Rightarrow> nat \<Rightarrow> json \<Rightarrow> error + row" where
  "timestamp_user_row clock k user =
     and_then (lookup user [''id'']) (\<lambda>user_id.
     and_then (lookup user [''name'']) (\<lambda>name.
     and_then (lookup user [''username'']) (\<lambda>username.
     and_then (lookup user [''email'']) (\<lambda>email.
     and_then (lookup user [''address'', ''city'']) (\<lambda>city.
     and_then (lookup user [''company'', ''name'']) (\<lambda>company_name.
       Inr [(''user_id'', user_id),
            (''name'', name),
            (''username'', username),
            (''email'', email),
            (''city'', city),
            (''company_name'', company_name),
            (''loaded_at'', JStr (clock (2 * k))),
            (''updated_at'', JStr (clock (2 * k + 1)))]))))))"

text \<open>
  \<^verbatim>\<open>len(data)\<close> inside the progress message, then \<^verbatim>\<open>for x in data\<close>: the shape
  shared by every extractor but \<^verbatim>\<open>load_posts_incremental\<close>.
\<close>

definition counted_items :: "json \<Rightarrow> error + json list" where
  "counted_items data = and_then (py_len data) (\<lambda>n. py_iter data)"

definition run_extractor :: "network \<Rightarrow> string \<Rightarrow> (nat \<Rightarrow> json \<Rightarrow> error + row) \<Rightarrow> run" where
  "run_extractor net u mk =
     (case fetch net u of
        (reqs, Inl e) \<Rightarrow> \<lparr>requests = reqs, yielded = [], raised = Some e\<rparr>
      | (reqs, Inr data) \<Rightarrow>
          (case counted_items data of
             Inl e \<Rightarrow> \<lparr>requests = reqs, yielded = [], raised = Some e\<rparr>
           | Inr items \<Rightarrow>
               (case for_yield mk 0 items of
                  (rows, e) \<Rightarrow> \<lparr>requests = reqs, yielded = rows, raised = e\<rparr>)))"

definition load_users_with_timestamp :: "network \<Rightarrow> clock \<Rightarrow> run" where
  "load_users_with_timestamp net clock = run_extractor net users_url (timestamp_user_row clock)"

section \<open>\<^verbatim>\<open>01_simple_pipeline.py\<close>\<close>

definition simple_user_row :: "json \<Rightarrow> error + row" where
  "simple_user_row user =
     and_then (lookup user [''id'']) (\<lambda>user_id.
     and_then (lookup user [''name'']) (\<lambda>name.
     and_then (lookup user [''username'']) (\<lambda>username.
     and_then (lookup user [''email'']) (\<lambda>email.
     and_then (lookup user [''phone'']) (\<lambda>phone.
     and_then (lookup user [''website'']) (\<lambda>website.
     and_then (lookup user [''address'', ''street'']) (\<lambda>street.
     and_then (lookup user [''address'', ''suite'']) (\<lambda>suite.
     and_then (lookup user [''address'', ''city'']) (\<lambda>city.
     and_then (lookup user [''address'', ''zipcode'']) (\<lambda>zipcode.
     and_then (lookup user [''address'', ''geo'', ''lat'']) (\<lambda>latitude.
     and_then (lookup user [''address'', ''geo'', ''lng'']) (\<lambda>longitude.
     and_then (lookup user [''company'', ''name'']) (\<lambda>company_name.
     and_then (lookup user [''company'', ''catchPhrase'']) (\<lambda>company_catchphrase.
     and_then (lookup user [''company'', ''bs'']) (\<lambda>company_bs.
       Inr [(''user_id'', user_id),
            (''name'', name),
            (''username'', username),
            (''email'', email),
            (''phone'', phone),
            (''website'', website),
            (''street'', street),
            (''suite'', suite),
            (''city'', city),
            (''zipcode'', zipcode),
            (''latitude'', latitude),
            (''longitude'', longitude),
            (''company_name'', company_name),
            (''company_catchphrase'', company_catchphrase),
            (''company_bs'', company_bs)])))))))))))))))"

definition simple_load_users :: "network \<Rightarrow> run" where
  "simple_load_users net = run_extractor net users_url (\<lambda>k. simple_user_row)"

definition simple_post_row :: "json \<Rightarrow> error + row" where
  "simple_post_row post =
     and_then (lookup post [''id'']) (\<lambda>post_id.
     and_then (lookup post [''userId'']) (\<lambda>user_id.
     and_then (lookup post [''title'']) (\<lambda>title.
     and_then (lookup post [''body'']) (\<lambda>body.
       Inr [(''post_id'', post_id),
            (''user_id'', user_id),
            (''title'', title),
            (''body'', body)]))))"

definition simple_load_posts :: "network \<Rightarrow> run" where
  "simple_load_posts net = run_extractor net posts_url (\<lambda>k. simple_post_row)"

section \<open>\<^verbatim>\<open>bigquery_pipeline.py\<close>: the extractors\<close>

text \<open>
  The built-in \<^verbatim>\<open>float\<close> is a parameter \<open>to_float\<close>: the parsed number, or the
  exception (\<^verbatim>\<open>ValueError\<close>, \<^verbatim>\<open>TypeError\<close>) the conversion raises.
\<close>

definition bigquery_user_row :: "(json \<Rightarrow> error + pyfloat) \<Rightarrow> clock \<Rightarrow> nat \<Rightarrow> json \<Rightarrow> error + row" where
  "bigquery_user_row to_float clock k user =
     and_then (lookup user [''id'']) (\<lambda>user_id.
     and_then (lookup user [''name'']) (\<lambda>name.
     and_then (lookup user [''username'']) (\<lambda>username.
     and_then (lookup user [''email'']) (\<lambda>email.
     and_then (lookup user [''phone'']) (\<lambda>phone.
     and_then (lookup user [''website'']) (\<lambda>website.
     and_then (lookup user [''address'', ''city'']) (\<lambda>city.
     and_then (lookup user [''address'', ''zipcode'']) (\<lambda>zipcode.
     and_then (and_then (lookup user [''address'', ''geo'', ''lat'']) to_float) (\<lambda>latitude.
     and_then (and_then (lookup user [''address'', ''geo'', ''lng'']) to_float) (\<lambda>longitude.
     and_then (lookup user [''company'', ''name'']) (\<lambda>company_name.
       Inr [(''user_id'', user_id),
            (''name'', name),
            (''username'', username),
            (''email'', email),
            (''phone'', phone),
            (''website'', website),
            (''city'', city),
            (''zipcode'', zipcode),
            (''latitude'', JFloat latitude),
            (''longitude'', JFloat longitude),
            (''company_name'', company_name),
            (''loaded_at'', JStr (clock k))])))))))))))"

definition bigquery_load_users :: "network \<Rightarrow> (json \<Rightarrow> error + pyfloat) \<Rightarrow> clock \<Rightarrow> run" where
  "bigquery_load_users net to_float clock = run_extractor net users_url (bigquery_user_row to_float clock)"

definition bigquery_post_row :: "clock \<Rightarrow> nat \<Rightarrow> json \<Rightarrow> error + row" where
  "bigquery_post_row clock k post =
     and_then (lookup post [''id'']) (\<lambda>post_id.
     and_then (lookup post [''userId'']) (\<lambda>user_id.
     and_then (lookup post [''title'']) (\<lambda>title.
     and_then (lookup post [''body'']) (\<lambda>body.
     and_then (and_then (lookup post [''title'']) py_len) (\<lambda>title_length.
     and_then (and_then (lookup post [''body'']) py_len) (\<lambda>body_length.
       Inr [(''post_id'', post_id),
            (''user_id'', user_id),
            (''title'', title),
            (''body'', body),
            (''title_length'', JInt (int title_length)),
            (''body_length'', JInt (int body_length)),
            (''loaded_at'', JStr (clock k))]))))))"

definition bigquery_load_posts :: "network \<Rightarrow> clock \<Rightarrow> run" where
  "bigquery_load_posts net clock = run_extractor net posts_url (bigquery_post_row clock)"

section \<open>\<^verbatim>\<open>bigquery_pipeline.py\<close>: configuration, setup check and \<^verbatim>\<open>main\<close>\<close>

text \<open>The process environment, and \<^verbatim>\<open>os.getenv(name, fallback)\<close>.\<close>

type_synonym environ = "string \<Rightarrow> string option"

definition getenv :: "environ \<Rightarrow> string \<Rightarrow> string \<Rightarrow> string" where
  "getenv env name fallback = (case env name of None \<Rightarrow> fallback | Some v \<Rightarrow> v)"

definition BIGQUERY_CREDENTIALS :: "environ \<Rightarrow> string" where
  "BIGQUERY_CREDENTIALS env =
     getenv env ''BIGQUERY_CREDENTIALS_PATH'' ''./phase3_warehouses/credentials/bigquery-key.json''"

definition BIGQUERY_PROJECT_ID :: "environ \<Rightarrow> string" where
  "BIGQUERY_PROJECT_ID env = getenv env ''BIGQUERY_PROJECT_ID'' ''your-project-id''"

definition BIGQUERY_DATASET :: "environ \<Rightarrow> string" where
  "BIGQUERY_DATASET env = getenv env ''BIGQUERY_DATASET'' ''api_ingestion''"

text \<open>
  What a call can raise, as \<^verbatim>\<open>except Exception\<close> sees it: an instance of
  \<^verbatim>\<open>Exception\<close>, with its message \<^verbatim>\<open>str(e)\<close>, or an exception outside that class
  (\<^verbatim>\<open>KeyboardInterrupt\<close>, \<^verbatim>\<open>SystemExit\<close>, \<^verbatim>\<open>GeneratorExit\<close>: subclasses of
  \<^verbatim>\<open>BaseException\<close> only), with its class name.
\<close>

datatype py_exception = Exception string | BaseExceptionOnly string

text \<open>
  The file system is a parameter: \<open>path_exists p\<close> is what \<^verbatim>\<open>Path(p).exists()\<close> does,
  an answer or the exception it raises (\<^verbatim>\<open>OSError\<close> for a name that is too long,
  \<^verbatim>\<open>PermissionError\<close> for a directory that cannot be searched).
\<close>

type_synonym file_system = "string \<Rightarrow> py_exception + bool"

text \<open>
  \<^verbatim>\<open>check_bigquery_setup\<close> prints a report; its result is modelled: the value it
  returns, or the exception of \<^verbatim>\<open>Path(BIGQUERY_CREDENTIALS).exists()\<close>, which it
  does not catch. The existence test is the first of the two checks.
\<close>

definition check_bigquery_setup :: "file_system \<Rightarrow> environ \<Rightarrow> py_exception + bool" where
  "check_bigquery_setup path_exists env =
     (case path_exists (BIGQUERY_CREDENTIALS env) of
        Inl e \<Rightarrow> Inl e
      | Inr found \<Rightarrow>
          (let checks_passed = True;
               checks_passed = (if found then checks_passed else False);
               checks_passed =
                 (if BIGQUERY_PROJECT_ID env \<noteq> ''your-project-id'' then checks_passed else False)
           in Inr checks_passed))"

text \<open>
  The arguments of \<^verbatim>\<open>dlt.pipeline(...)\<close> in \<^verbatim>\<open>run_bigquery_pipeline\<close>: the pipeline's
  name, the destination \<^verbatim>\<open>dlt.destinations.bigquery(credentials=..., location="US")\<close> and
  the dataset's name.
\<close>

record bigquery_destination =
  credentials :: string
  location :: string

record pipeline =
  pipeline_name :: string
  destination :: bigquery_destination
  dataset_name :: string

text \<open>
  The loading library is a parameter: \<open>dlt p\<close> is what creating the pipeline \<open>p\<close> and
  running the source on it end with, \<open>None\<close> for a completed load.
\<close>

type_synonym loader = "pipeline \<Rightarrow> py_exception option"

text \<open>
  \<^verbatim>\<open>run_bigquery_pipeline\<close> returns the pipelines handed to the library, and the pipeline
  object or the exception that left the function.
\<close>

definition run_bigquery_pipeline :: "loader \<Rightarrow> environ \<Rightarrow> pipeline list \<times> (py_exception + pipeline)" where
  "run_bigquery_pipeline dlt env =
     (let p = \<lparr>pipeline_name = ''jsonplaceholder_to_bigquery'',
                destination = \<lparr>credentials = BIGQUERY_CREDENTIALS env, location = ''US''\<rparr>,
                dataset_name = BIGQUERY_DATASET env\<rparr>
      in case dlt p of
           Some e \<Rightarrow> ([p], Inl e)
         | None \<Rightarrow> ([p], Inr p))"

text \<open>
  Between creating the pipeline and running it, \<^verbatim>\<open>run_bigquery_pipeline\<close> prints the
  configuration of the pipeline (lines 187 to 192 of the script), and after the load the
  full name of each table it reports as created (line 207), for a table name of the load.
  The lines are given without the pictographs and the leading blank line.
\<close>

definition pipeline_configuration_report :: "environ \<Rightarrow> string list" where
  "pipeline_configuration_report env =
     [''Pipeline Configuration:'',
      ''   Pipeline: jsonplaceholder_to_bigquery'',
      ''   Destination: BigQuery'',
      ''   Project: '' @ BIGQUERY_PROJECT_ID env,
      ''   Dataset: '' @ BIGQUERY_DATASET env,
      ''   Location: US'']"

definition full_table :: "environ \<Rightarrow> string \<Rightarrow> string" where
  "full_table env table_name =
     BIGQUERY_PROJECT_ID env @ ''.'' @ BIGQUERY_DATASET env @ ''.'' @ table_name"

datatype outcome = Returned | Propagated py_exception

text \<open>
  What \<^verbatim>\<open>main\<close> does: the lines it prints itself (the text of each \<^verbatim>\<open>print\<close> of its
  body, without the blank lines, the rules of \<^verbatim>\<open>=\<close> and the pictographs), the pipelines
  handed to the library, and how it ends. The setup check is called before the
  \<^verbatim>\<open>try\<close> block, so an exception of the check leaves \<^verbatim>\<open>main\<close>. Between the check and
  the \<^verbatim>\<open>try\<close> block \<^verbatim>\<open>main\<close> calls \<^verbatim>\<open>demonstrate_bigquery_features\<close> and
  \<^verbatim>\<open>show_cost_estimation\<close>, which only print. \<^verbatim>\<open>except Exception as e\<close> handles the
  instances of \<^verbatim>\<open>Exception\<close>; any other exception leaves \<^verbatim>\<open>main\<close>.
\<close>

record main_result =
  console :: "string list"
  pipelines :: "pipeline list"
  ending :: outcome

definition main :: "file_system \<Rightarrow> environ \<Rightarrow> loader \<Rightarrow> main_result" where
  "main path_exists env dlt =
     (let banner = [''BIGQUERY PIPELINE - CLOUD DATA WAREHOUSE''] in
      case check_bigquery_setup path_exists env of
        Inl e \<Rightarrow> \<lparr>console = banner, pipelines = [], ending = Propagated e\<rparr>
      | Inr passed \<Rightarrow>
          if \<not> passed then
            \<lparr>console = banner @ [''Please complete setup steps above first.''],
             pipelines = [], ending = Returned\<rparr>
          else
            (case run_bigquery_pipeline dlt env of
               (ps, Inr p) \<Rightarrow>
                 \<lparr>console = banner @
                    [''SUCCESS!'',
                     ''Your data is now in BigQuery!'',
                     ''You can query it with SQL'',
                     ''You can connect BI tools (Looker, Tableau, etc.)'',
                     ''You can share datasets with your team''],
                  pipelines = ps, ending = Returned\<rparr>
             | (ps, Inl (Exception msg)) \<Rightarrow>
                 \<lparr>console = banner @
                    [''Error running pipeline: '' @ msg,
                     ''Troubleshooting:'',
                     ''1. Check credentials file exists and is valid'',
                     ''2. Verify project ID is correct'',
                     ''3. Ensure BigQuery API is enabled'',
                     ''4. Check service account has BigQuery Admin role''],
                  pipelines = ps, ending = Returned\<rparr>
             | (ps, Inl (BaseExceptionOnly c)) \<Rightarrow>
                 \<lparr>console = banner, pipelines = ps, ending = Propagated (BaseExceptionOnly c)\<rparr>))"

section \<open>The vocabulary of the properties\<close>

subsection \<open>The six extractor functions together\<close>

text \<open>
  One run of each extractor of the three scripts, against the same network:
  \<^verbatim>\<open>load_users\<close> and \<^verbatim>\<open>load_posts\<close> of \<^verbatim>\<open>01_simple_pipeline.py\<close>,
  \<^verbatim>\<open>load_posts_incremental\<close> and \<^verbatim>\<open>load_users_with_timestamp\<close> of
  \<^verbatim>\<open>02_incremental_load.py\<close>, \<^verbatim>\<open>load_users\<close> and \<^verbatim>\<open>load_posts\<close> of
  \<^verbatim>\<open>bigquery_pipeline.py\<close>.
\<close>

definition extractor_runs :: "network \<Rightarrow> (json \<Rightarrow> error + pyfloat) \<Rightarrow> clock \<Rightarrow> int \<Rightarrow> run list" where
  "extractor_runs net to_float clock last_value =
     [simple_load_users net,
      simple_load_posts net,
      load_posts_incremental net clock last_value,
      load_users_with_timestamp net clock,
      bigquery_load_users net to_float clock,
      bigquery_load_posts net clock]"

subsection \<open>Flat rows and projections\<close>

text \<open>
  A scalar is a JSON value that is neither a list nor an object; a row is flat when it maps
  each of its keys to a scalar.
\<close>

fun is_scalar :: "json \<Rightarrow> bool" where
  "is_scalar (JArr xs) = False"
| "is_scalar (JObj kvs) = False"
| "is_scalar _ = True"

definition is_flat :: "row \<Rightarrow> bool" where
  "is_flat r = list_all (\<lambda>kv. is_scalar (snd kv)) r"

text \<open>
  \<open>present v path\<close>: the nested keys of \<open>path\<close> exist in \<open>v\<close>. \<open>project v path\<close> is the
  value found there; it is read only where the path is present (elsewhere it is \<open>JNull\<close>).
\<close>

definition present :: "json \<Rightarrow> string list \<Rightarrow> bool" where
  "present v path = (case lookup v path of Inl e \<Rightarrow> False | Inr w \<Rightarrow> True)"

definition project :: "json \<Rightarrow> string list \<Rightarrow> json" where
  "project v path = (case lookup v path of Inl e \<Rightarrow> JNull | Inr w \<Rightarrow> w)"

text \<open>
  The row that the specification describes for a user of \<^verbatim>\<open>01_simple_pipeline.py\<close>: each
  field of the row with the path of the nested JSON it is a projection of. It is written
  from the claim, to be compared with \<open>simple_user_row\<close>, which is written from the code.
\<close>

definition user_fields :: "(string \<times> string list) list" where
  "user_fields =
     [(''user_id'', [''id'']),
      (''name'', [''name'']),
      (''username'', [''username'']),
      (''email'', [''email'']),
      (''phone'', [''phone'']),
      (''website'', [''website'']),
      (''street'', [''address'', ''street'']),
      (''suite'', [''address'', ''suite'']),
      (''city'', [''address'', ''city'']),
      (''zipcode'', [''address'', ''zipcode'']),
      (''latitude'', [''address'', ''geo'', ''lat'']),
      (''longitude'', [''address'', ''geo'', ''lng'']),
      (''company_name'', [''company'', ''name'']),
      (''company_catchphrase'', [''company'', ''catchPhrase'']),
      (''company_bs'', [''company'', ''bs''])]"

definition has_expected_keys :: "json \<Rightarrow> bool" where
  "has_expected_keys user = list_all (\<lambda>f. present user (snd f)) user_fields"

definition scalar_leaves :: "json \<Rightarrow> bool" where
  "scalar_leaves user = list_all (\<lambda>f. is_scalar (project user (snd f))) user_fields"

definition flat_user :: "json \<Rightarrow> row" where
  "flat_user user = map (\<lambda>f. (fst f, project user (snd f))) user_fields"

text \<open>
  A post of the API: an object with an integer \<^verbatim>\<open>id\<close> and scalar \<^verbatim>\<open>userId\<close>,
  \<^verbatim>\<open>title\<close> and \<^verbatim>\<open>body\<close>. \<open>exceeds post n\<close>: the identifier of the post is strictly
  greater than \<open>n\<close>. \<open>flat_post\<close> is the row the specification describes for a post of
  \<^verbatim>\<open>02_incremental_load.py\<close>, to be compared with \<open>incremental_post_row\<close>.
\<close>

definition post_ident :: "json \<Rightarrow> int option" where
  "post_ident post = (case subscript post ''id'' of Inr (JInt i) \<Rightarrow> Some i | _ \<Rightarrow> None)"

definition exceeds :: "json \<Rightarrow> int \<Rightarrow> bool" where
  "exceeds post n = (case post_ident post of Some i \<Rightarrow> n < i | None \<Rightarrow> False)"

definition is_post :: "json \<Rightarrow> bool" where
  "is_post p =
     (post_ident p \<noteq> None \<and>
      list_all (\<lambda>k. present p [k] \<and> is_scalar (project p [k])) [''userId'', ''title'', ''body''])"

definition flat_post :: "string \<Rightarrow> json \<Rightarrow> row" where
  "flat_post loaded_at post =
     [(''post_id'', project post [''id'']),
      (''user_id'', project post [''userId'']),
      (''title'', project post [''title'']),
      (''body'', project post [''body'']),
      (''loaded_at'', JStr loaded_at)]"

text \<open>
  The length of a title or of a body, as the claim reads it: the number of characters of a
  string (of elements of a list, of items of an object); nothing else has a length. It is
  written with the list function \<open>length\<close>, to be compared with what the code computes
  with \<^verbatim>\<open>len\<close>.
\<close>

fun has_length :: "json \<Rightarrow> nat \<Rightarrow> bool" where
  "has_length (JStr s) n = (n = length s)"
| "has_length (JArr xs) n = (n = length xs)"
| "has_length (JObj kvs) n = (n = length kvs)"
| "has_length _ n = False"

subsection \<open>The stored cursor\<close>

text \<open>
  \<^verbatim>\<open>dlt.sources.incremental("post_id", initial_value=0)\<close> declares the cursor of
  \<^verbatim>\<open>load_posts_incremental\<close>: the field \<^verbatim>\<open>post_id\<close> of the yielded records, an
  \<^verbatim>\<open>int\<close>. \<open>cursor_values rows\<close> are the integers found in that field.
\<close>

definition int_cursor :: "row \<Rightarrow> bool" where
  "int_cursor r = (case map_of r ''post_id'' of Some (JInt i) \<Rightarrow> True | _ \<Rightarrow> False)"

definition cursor_values :: "row list \<Rightarrow> int list" where
  "cursor_values rows =
     List.map_filter (\<lambda>r. case map_of r ''post_id'' of Some (JInt i) \<Rightarrow> Some i | _ \<Rightarrow> None) rows"

text \<open>
  Modelled from the spec: keeping the cursor between runs is done by the loading library,
  whose code is not part of the repository. Section 4 of the specification gives its
  contract: "after processing, advance the mark to the maximum identifier seen". The mark
  after a run is the greatest of the old mark and the identifiers seen in the run.
\<close>

definition advance_mark :: "int \<Rightarrow> int list \<Rightarrow> int" where
  "advance_mark mark seen = fold max seen mark"

subsection \<open>Concrete inputs\<close>

text \<open>A post and a user with the shape the JSONPlaceholder API gives them, and a network
  that answers every request with them.\<close>

definition sample_post :: "int \<Rightarrow> json" where
  "sample_post n =
     JObj [(''userId'', JInt 1), (''id'', JInt n), (''title'', JStr ''qui est esse''),
           (''body'', JStr ''est rerum'')]"

definition sample_posts_network :: network where
  "sample_posts_network req =
     Inr \<lparr>status_code = 200, body = Some (JArr [sample_post 1, sample_post 2, sample_post 3])\<rparr>"

definition sample_clock :: clock where
  "sample_clock n = ''2024-01-01T00:00:00''"

definition sample_user :: "json \<Rightarrow> json" where
  "sample_user name_value =
     JObj [(''id'', JInt 1),
           (''name'', name_value),
           (''username'', JStr ''Bret''),
           (''email'', JStr ''Sincere@april.biz''),
           (''address'', JObj [(''street'', JStr ''Kulas Light''),
                               (''suite'', JStr ''Apt. 556''),
                               (''city'', JStr ''Gwenborough''),
                               (''zipcode'', JStr ''92998-3874''),
                               (''geo'', JObj [(''lat'', JStr ''-37.3159''), (''lng'', JStr ''81.1496'')])]),
           (''phone'', JStr ''1-770-736-8031''),
           (''website'', JStr ''hildegard.org''),
           (''company'', JObj [(''name'', JStr ''Romaguera-Crona''),
                               (''catchPhrase'', JStr ''Multi-layered''),
                               (''bs'', JStr ''harness'')])]"

definition sample_users_network :: "json \<Rightarrow> network" where
  "sample_users_network name_value req =
     Inr \<lparr>status_code = 200, body = Some (JArr [sample_user name_value])\<rparr>"

definition not_found_network :: network where
  "not_found_network req = Inr \<lparr>status_code = 404, body = None\<rparr>"

definition unreachable_network :: network where
  "unreachable_network req = Inl ConnectionError"

definition no_float :: "json \<Rightarrow> error + pyfloat" where
  "no_float v = Inl ValueError"

text \<open>An environment that sets only the project, a loader that completes, a loader that
  raises, and three file systems: one where every path exists, one where none does, and one
  where the directory of the path may not be searched.\<close>

definition project_env :: "string \<Rightarrow> environ" where
  "project_env pid = [''BIGQUERY_PROJECT_ID'' \<mapsto> pid]"

definition completing_loader :: loader where
  "completing_loader p = None"


definition any_path_exists :: file_system where
  "any_path_exists p = Inr True"

definition no_path_exists :: file_system where
  "no_path_exists p = Inr False"

definition forbidden_directory :: file_system where
  "forbidden_directory p = Inl (Exception ''[Errno 13] Permission denied'')"

section \<open>Properties of the scripts\<close>

subsection \<open>Sequencing, fetching and the request log\<close>

lemma and_then_Inr [simp]: "and_then (Inr a) f = f a"
  by (simp add: and_then_def)

lemma and_then_Inl [simp]: "and_then (Inl e) f = Inl e"
  by (simp add: and_then_def)

lemma and_then_eq_Inr: "and_then m f = Inr r \<longleftrightarrow> (\<exists>a. m = Inr a \<and> f a = Inr r)"
  by (cases m) simp_all

lemma fetch_requests: "fst (fetch net u) = [\<lparr>meth = GET, url = u\<rparr>]"
  by (simp add: fetch_def Let_def split: sum.splits option.splits)

lemma fetch_Inr:
  "fetch net u = (reqs, Inr data) \<longleftrightarrow>
     reqs = [\<lparr>meth = GET, url = u\<rparr>] \<and>
     (\<exists>resp. net \<lparr>meth = GET, url = u\<rparr> = Inr resp \<and> 200 \<le> status_code resp \<and>
        status_code resp < 300 \<and> body resp = Some data)"
  by (auto simp add: fetch_def Let_def raise_for_status_def response_json_def
      split: sum.splits option.splits if_splits)

lemma fetch_not_2xx:
  "net \<lparr>meth = GET, url = u\<rparr> = Inr resp \<Longrightarrow>
   \<not> (200 \<le> status_code resp \<and> status_code resp < 300) \<Longrightarrow>
   fetch net u = ([\<lparr>meth = GET, url = u\<rparr>], Inl (HTTPError (status_code resp)))"
  by (auto simp add: fetch_def Let_def raise_for_status_def)

lemma fetch_2xx:
  "net \<lparr>meth = GET, url = u\<rparr> = Inr resp \<Longrightarrow>
   200 \<le> status_code resp \<Longrightarrow> status_code resp < 300 \<Longrightarrow>
   fetch net u = ([\<lparr>meth = GET, url = u\<rparr>], response_json resp)"
  by (simp add: fetch_def Let_def raise_for_status_def)

lemma requests_run_extractor: "requests (run_extractor net u mk) = [\<lparr>meth = GET, url = u\<rparr>]"
  using fetch_requests [of net u]
  by (auto simp add: run_extractor_def split: prod.splits sum.splits)

lemma requests_load_posts_incremental:
  "requests (load_posts_incremental net clock last_value) = [\<lparr>meth = GET, url = posts_url\<rparr>]"
  using fetch_requests [of net posts_url]
  by (auto simp add: load_posts_incremental_def split: prod.splits sum.splits)

lemma run_extractor_not_2xx:
  "net \<lparr>meth = GET, url = u\<rparr> = Inr resp \<Longrightarrow>
   \<not> (200 \<le> status_code resp \<and> status_code resp < 300) \<Longrightarrow>
   yielded (run_extractor net u mk) = [] \<and> raised (run_extractor net u mk) = Some (HTTPError (status_code resp))"
  by (simp add: run_extractor_def fetch_not_2xx)

lemma load_posts_incremental_not_2xx:
  "net \<lparr>meth = GET, url = posts_url\<rparr> = Inr resp \<Longrightarrow>
   \<not> (200 \<le> status_code resp \<and> status_code resp < 300) \<Longrightarrow>
   yielded (load_posts_incremental net clock n) = [] \<and>
   raised (load_posts_incremental net clock n) = Some (HTTPError (status_code resp))"
  by (simp add: load_posts_incremental_def fetch_not_2xx)

lemma run_extractor_yields:
  "yielded (run_extractor net u mk) \<noteq> [] \<Longrightarrow>
   \<exists>resp. net \<lparr>meth = GET, url = u\<rparr> = Inr resp \<and> 200 \<le> status_code resp \<and> status_code resp < 300"
  by (auto simp add: run_extractor_def fetch_Inr split: prod.splits sum.splits)

lemma load_posts_incremental_yields:
  "yielded (load_posts_incremental net clock n) \<noteq> [] \<Longrightarrow>
   \<exists>resp. net \<lparr>meth = GET, url = posts_url\<rparr> = Inr resp \<and> 200 \<le> status_code resp \<and> status_code resp < 300"
  by (auto simp add: load_posts_incremental_def fetch_Inr split: prod.splits sum.splits)

lemma extractor_runs_cases:
  assumes "r \<in> set (extractor_runs net to_float clock last_value)"
  obtains u mk where "u = users_url \<or> u = posts_url" "r = run_extractor net u mk"
  | "r = load_posts_incremental net clock last_value"
  using assms
  by (auto simp add: extractor_runs_def simple_load_users_def simple_load_posts_def
      load_users_with_timestamp_def bigquery_load_users_def bigquery_load_posts_def)

text \<open>
  Claim C3. In each of the six extractors, whatever the network answers to the GET it
  issues: when the status of the response is not 2xx the run yields no record and ends with
  the HTTP error that \<^verbatim>\<open>raise_for_status\<close> raises; so a run that yields a record had a
  2xx response.
\<close>

theorem non_2xx_raises_before_any_record:
  assumes "r \<in> set (extractor_runs net to_float clock last_value)"
    and "req \<in> set (requests r)"
    and "net req = Inr resp"
  shows "(\<not> (200 \<le> status_code resp \<and> status_code resp < 300) \<longrightarrow>
            yielded r = [] \<and> raised r = Some (HTTPError (status_code resp))) \<and>
         (yielded r \<noteq> [] \<longrightarrow> 200 \<le> status_code resp \<and> status_code resp < 300)"
proof -
  have first: "yielded r = [] \<and> raised r = Some (HTTPError (status_code resp))"
    if bad: "\<not> (200 \<le> status_code resp \<and> status_code resp < 300)"
    using assms(1)
  proof (cases rule: extractor_runs_cases)
    case (1 u mk)
    with assms(2) have "req = \<lparr>meth = GET, url = u\<rparr>"
      by (simp add: requests_run_extractor)
    with assms(3) bad 1 show ?thesis
      using run_extractor_not_2xx [of net u resp mk] by simp
  next
    case 2
    with assms(2) have "req = \<lparr>meth = GET, url = posts_url\<rparr>"
      by (simp add: requests_load_posts_incremental)
    with assms(3) bad 2 show ?thesis
      using load_posts_incremental_not_2xx [of net resp clock last_value] by simp
  qed
  then show ?thesis by auto
qed

theorem non_2xx_raises_before_any_record_witness:
  "simple_load_users not_found_network
     \<in> set (extractor_runs not_found_network no_float sample_clock 0) \<and>
   \<lparr>meth = GET, url = users_url\<rparr> \<in> set (requests (simple_load_users not_found_network)) \<and>
   not_found_network \<lparr>meth = GET, url = users_url\<rparr> = Inr \<lparr>status_code = 404, body = None\<rparr> \<and>
   \<not> (200 \<le> status_code \<lparr>status_code = 404, body = None\<rparr> \<and>
        status_code \<lparr>status_code = 404, body = None\<rparr> < 300) \<and>
   yielded (simple_load_users not_found_network) = [] \<and>
   raised (simple_load_users not_found_network) = Some (HTTPError 404)"
proof -
  have a: "simple_load_users not_found_network
      \<in> set (extractor_runs not_found_network no_float sample_clock 0)"
    by (simp add: extractor_runs_def)
  have b: "\<lparr>meth = GET, url = users_url\<rparr> \<in> set (requests (simple_load_users not_found_network))"
    by (simp add: simple_load_users_def requests_run_extractor)
  have c: "not_found_network \<lparr>meth = GET, url = users_url\<rparr> = Inr \<lparr>status_code = 404, body = None\<rparr>"
    by (simp add: not_found_network_def)
  from non_2xx_raises_before_any_record [OF a b c] a b c show ?thesis
    by simp
qed

text \<open>
  Claim C5. Each extractor issues exactly one request, a GET to the users list or to the
  posts list of the JSONPlaceholder API; so every request of every extractor is a GET to one
  of these two fixed URLs.
\<close>

theorem extractors_request_two_endpoints:
  "map requests (extractor_runs net to_float clock last_value) =
     [[\<lparr>meth = GET, url = users_url\<rparr>],
      [\<lparr>meth = GET, url = posts_url\<rparr>],
      [\<lparr>meth = GET, url = posts_url\<rparr>],
      [\<lparr>meth = GET, url = users_url\<rparr>],
      [\<lparr>meth = GET, url = users_url\<rparr>],
      [\<lparr>meth = GET, url = posts_url\<rparr>]] \<and>
   (\<forall>r \<in> set (extractor_runs net to_float clock last_value). \<forall>req \<in> set (requests r).
      meth req = GET \<and> (url req = users_url \<or> url req = posts_url)) \<and>
   users_url = ''https://jsonplaceholder.typicode.com/users'' \<and>
   posts_url = ''https://jsonplaceholder.typicode.com/posts''"
  by (simp add: extractor_runs_def simple_load_users_def simple_load_posts_def
      load_users_with_timestamp_def bigquery_load_users_def bigquery_load_posts_def
      requests_run_extractor requests_load_posts_incremental users_url_def posts_url_def)

theorem extractors_request_two_endpoints_witness:
  "bigquery_load_posts unreachable_network sample_clock
     \<in> set (extractor_runs unreachable_network no_float sample_clock 0) \<and>
   \<lparr>meth = GET, url = posts_url\<rparr> \<in> set (requests (bigquery_load_posts unreachable_network sample_clock)) \<and>
   meth \<lparr>meth = GET, url = posts_url\<rparr> = GET \<and>
   url \<lparr>meth = GET, url = posts_url\<rparr> = ''https://jsonplaceholder.typicode.com/posts''"
proof -
  let ?r = "bigquery_load_posts unreachable_network sample_clock"
  let ?req = "\<lparr>meth = GET, url = posts_url\<rparr>"
  have a: "?r \<in> set (extractor_runs unreachable_network no_float sample_clock 0)"
    by (simp add: extractor_runs_def)
  have b: "?req \<in> set (requests ?r)"
    by (simp add: bigquery_load_posts_def requests_run_extractor)
  note t = extractors_request_two_endpoints [of unreachable_network no_float sample_clock 0]
  from t have ball: "\<forall>r \<in> set (extractor_runs unreachable_network no_float sample_clock 0).
      \<forall>req \<in> set (requests r). meth req = GET \<and> (url req = users_url \<or> url req = posts_url)"
    and p: "posts_url = ''https://jsonplaceholder.typicode.com/posts''"
    by blast+
  from ball a b have "meth ?req = GET" by blast
  moreover from p have "url ?req = ''https://jsonplaceholder.typicode.com/posts''"
    by (simp only: http_request.select_convs)
  ultimately show ?thesis using a b by blast
qed

subsection \<open>The generator loop\<close>

lemma lookup_single [simp]: "lookup v [k] = subscript v k"
  by (cases "subscript v k") simp_all

lemma for_yield_nth:
  "for_yield mk k xs = (rows, e) \<Longrightarrow> i < length rows \<Longrightarrow>
     i < length xs \<and> mk (k + i) (xs ! i) = Inr (rows ! i)"
proof (induction xs arbitrary: k rows i)
  case Nil
  then show ?case by simp
next
  case (Cons x xs)
  from Cons.prems obtain r rs where mk: "mk k x = Inr r" and rest: "for_yield mk (Suc k) xs = (rs, e)"
    and rows: "rows = r # rs"
    by (auto split: sum.splits prod.splits)
  show ?case
  proof (cases i)
    case 0
    with mk rows show ?thesis by simp
  next
    case (Suc j)
    with Cons.prems(2) rows have "j < length rs" by simp
    from Cons.IH [OF rest this] Suc rows show ?thesis by simp
  qed
qed

lemma for_yield_complete:
  "for_yield mk k xs = (rows, None) \<Longrightarrow> length rows = length xs"
  by (induction xs arbitrary: k rows) (auto split: sum.splits prod.splits)

lemma for_yield_all:
  "(\<And>j x. x \<in> set xs \<Longrightarrow> mk j x = Inr (g j x)) \<Longrightarrow>
   for_yield mk k xs = (map (\<lambda>(j, x). g j x) (enumerate k xs), None)"
  by (induction xs arbitrary: k) simp_all

lemma run_extractor_nth:
  assumes "i < length (yielded (run_extractor net u mk))"
  shows "\<exists>resp data items.
      net \<lparr>meth = GET, url = u\<rparr> = Inr resp \<and> 200 \<le> status_code resp \<and> status_code resp < 300 \<and>
      body resp = Some data \<and> py_iter data = Inr items \<and> i < length items \<and>
      mk i (items ! i) = Inr (yielded (run_extractor net u mk) ! i)"
proof -
  obtain reqs res where f: "fetch net u = (reqs, res)" by (cases "fetch net u")
  show ?thesis
  proof (cases res)
    case (Inl e)
    with f assms show ?thesis by (simp add: run_extractor_def)
  next
    case (Inr data)
    note data = this
    from f data obtain resp where resp: "net \<lparr>meth = GET, url = u\<rparr> = Inr resp"
      "200 \<le> status_code resp" "status_code resp < 300" "body resp = Some data"
      by (auto simp add: fetch_Inr)
    show ?thesis
    proof (cases "counted_items data")
      case (Inl e)
      with f data assms show ?thesis by (simp add: run_extractor_def)
    next
      case (Inr items)
      then have it: "py_iter data = Inr items"
        by (auto simp add: counted_items_def and_then_eq_Inr)
      obtain rows e where fy: "for_yield mk 0 items = (rows, e)" by (cases "for_yield mk 0 items")
      with f data Inr have y: "yielded (run_extractor net u mk) = rows"
        by (simp add: run_extractor_def)
      with assms have "i < length rows" by simp
      from for_yield_nth [OF fy this] y resp it show ?thesis by auto
    qed
  qed
qed

lemma bigquery_post_row_Inr:
  assumes "bigquery_post_row clock k post = Inr r"
  shows "\<exists>post_id user_id t b n m.
      subscript post ''id'' = Inr post_id \<and> subscript post ''userId'' = Inr user_id \<and>
      subscript post ''title'' = Inr t \<and> subscript post ''body'' = Inr b \<and>
      py_len t = Inr n \<and> py_len b = Inr m \<and>
      r = [(''post_id'', post_id), (''user_id'', user_id), (''title'', t), (''body'', b),
           (''title_length'', JInt (int n)), (''body_length'', JInt (int m)),
           (''loaded_at'', JStr (clock k))]"
  using assms unfolding bigquery_post_row_def and_then_eq_Inr lookup_single
  by (elim exE conjE) auto

subsection \<open>The warehouse script\<close>

lemma check_bigquery_setup_Inr:
  "check_bigquery_setup path_exists env = Inr passed \<longleftrightarrow>
     (\<exists>found. path_exists (BIGQUERY_CREDENTIALS env) = Inr found \<and>
        passed = (found \<and> BIGQUERY_PROJECT_ID env \<noteq> ''your-project-id''))"
  by (cases "path_exists (BIGQUERY_CREDENTIALS env)")
    (auto simp add: check_bigquery_setup_def Let_def)

lemma check_bigquery_setup_Inl:
  "check_bigquery_setup path_exists env = Inl e \<longleftrightarrow>
     path_exists (BIGQUERY_CREDENTIALS env) = Inl e"
  by (cases "path_exists (BIGQUERY_CREDENTIALS env)")
    (auto simp add: check_bigquery_setup_def Let_def)

lemma main_check_failed:
  "check_bigquery_setup path_exists env = Inr False \<Longrightarrow>
     pipelines (main path_exists env dlt) = [] \<and> ending (main path_exists env dlt) = Returned"
  by (simp add: main_def Let_def)

lemma main_check_raised:
  "check_bigquery_setup path_exists env = Inl e \<Longrightarrow>
     pipelines (main path_exists env dlt) = [] \<and> ending (main path_exists env dlt) = Propagated e"
  by (simp add: main_def Let_def)

text \<open>
  Claim C9, as amended. \<^verbatim>\<open>main\<close> hands a pipeline to the loading library only when
  \<^verbatim>\<open>check_bigquery_setup\<close> has returned true. When the credentials file is found not to
  exist, or is found and the project ID is the placeholder \<^verbatim>\<open>your-project-id\<close>, the check
  returns false and \<^verbatim>\<open>main\<close> returns early, \<^verbatim>\<open>run_bigquery_pipeline\<close> not invoked. When
  the existence test raises, the check raises the same exception, which leaves \<^verbatim>\<open>main\<close>,
  again with no pipeline created.
\<close>

theorem pipeline_needs_setup_check:
  "(pipelines (main path_exists env dlt) \<noteq> [] \<longrightarrow>
      check_bigquery_setup path_exists env = Inr True) \<and>
   (path_exists (BIGQUERY_CREDENTIALS env) = Inr False \<or>
    path_exists (BIGQUERY_CREDENTIALS env) = Inr True \<and>
      BIGQUERY_PROJECT_ID env = ''your-project-id'' \<longrightarrow>
      check_bigquery_setup path_exists env = Inr False \<and>
      pipelines (main path_exists env dlt) = [] \<and>
      ending (main path_exists env dlt) = Returned) \<and>
   (path_exists (BIGQUERY_CREDENTIALS env) = Inl e \<longrightarrow>
      check_bigquery_setup path_exists env = Inl e \<and>
      pipelines (main path_exists env dlt) = [] \<and>
      ending (main path_exists env dlt) = Propagated e)"
proof (intro conjI impI)
  assume run: "pipelines (main path_exists env dlt) \<noteq> []"
  show "check_bigquery_setup path_exists env = Inr True"
  proof (cases "check_bigquery_setup path_exists env")
    case (Inl e')
    with run main_check_raised [of path_exists env e' dlt] show ?thesis by simp
  next
    case (Inr passed)
    with run main_check_failed [of path_exists env dlt] show ?thesis by (cases passed) simp_all
  qed
next
  assume "path_exists (BIGQUERY_CREDENTIALS env) = Inr False \<or>
    path_exists (BIGQUERY_CREDENTIALS env) = Inr True \<and>
      BIGQUERY_PROJECT_ID env = ''your-project-id''"
  then have c: "check_bigquery_setup path_exists env = Inr False"
    by (auto simp add: check_bigquery_setup_Inr)
  then show "check_bigquery_setup path_exists env = Inr False" .
  from c main_check_failed [of path_exists env dlt]
  show "pipelines (main path_exists env dlt) = []" "ending (main path_exists env dlt) = Returned"
    by simp_all
next
  assume "path_exists (BIGQUERY_CREDENTIALS env) = Inl e"
  then have c: "check_bigquery_setup path_exists env = Inl e"
    by (simp add: check_bigquery_setup_Inl)
  then show "check_bigquery_setup path_exists env = Inl e" .
  from c main_check_raised [of path_exists env e dlt]
  show "pipelines (main path_exists env dlt) = []" "ending (main path_exists env dlt) = Propagated e"
    by simp_all
qed

lemma main_sample_project:
  "check_bigquery_setup any_path_exists (project_env ''analytics-1'') = Inr True \<and>
   check_bigquery_setup any_path_exists (project_env ''analytics-2'') = Inr True \<and>
   pipelines (main any_path_exists (project_env ''analytics-1'') completing_loader) =
     [\<lparr>pipeline_name = ''jsonplaceholder_to_bigquery'',
       destination = \<lparr>credentials = ''./phase3_warehouses/credentials/bigquery-key.json'',
                      location = ''US''\<rparr>,
       dataset_name = ''api_ingestion''\<rparr>] \<and>
   pipelines (main any_path_exists (project_env ''analytics-2'') completing_loader) =
     [\<lparr>pipeline_name = ''jsonplaceholder_to_bigquery'',
       destination = \<lparr>credentials = ''./phase3_warehouses/credentials/bigquery-key.json'',
                      location = ''US''\<rparr>,
       dataset_name = ''api_ingestion''\<rparr>]"
  by (simp add: check_bigquery_setup_def BIGQUERY_PROJECT_ID_def BIGQUERY_CREDENTIALS_def
      BIGQUERY_DATASET_def getenv_def project_env_def any_path_exists_def completing_loader_def
      run_bigquery_pipeline_def main_def Let_def)

theorem pipeline_needs_setup_check_witness:
  "pipelines (main any_path_exists (project_env ''analytics-1'') completing_loader) \<noteq> [] \<and>
   check_bigquery_setup any_path_exists (project_env ''analytics-1'') = Inr True \<and>
   no_path_exists (BIGQUERY_CREDENTIALS (project_env ''analytics-1'')) = Inr False \<and>
   check_bigquery_setup no_path_exists (project_env ''analytics-1'') = Inr False \<and>
   pipelines (main no_path_exists (project_env ''analytics-1'') completing_loader) = [] \<and>
   ending (main no_path_exists (project_env ''analytics-1'') completing_loader) = Returned \<and>
   any_path_exists (BIGQUERY_CREDENTIALS Map.empty) = Inr True \<and>
   BIGQUERY_PROJECT_ID Map.empty = ''your-project-id'' \<and>
   check_bigquery_setup any_path_exists Map.empty = Inr False \<and>
   pipelines (main any_path_exists Map.empty completing_loader) = [] \<and>
   ending (main any_path_exists Map.empty completing_loader) = Returned"
proof -
  have a: "pipelines (main any_path_exists (project_env ''analytics-1'') completing_loader) \<noteq> []"
    by (simp add: main_sample_project)
  have b: "no_path_exists (BIGQUERY_CREDENTIALS (project_env ''analytics-1'')) = Inr False"
    by (simp add: no_path_exists_def)
  have c: "any_path_exists (BIGQUERY_CREDENTIALS Map.empty) = Inr True"
    "BIGQUERY_PROJECT_ID Map.empty = ''your-project-id''"
    by (simp_all add: any_path_exists_def BIGQUERY_PROJECT_ID_def getenv_def)
  note t1 = pipeline_needs_setup_check
    [of any_path_exists "project_env ''analytics-1''" completing_loader]
  note t2 = pipeline_needs_setup_check
    [of no_path_exists "project_env ''analytics-1''" completing_loader]
  note t3 = pipeline_needs_setup_check [of any_path_exists Map.empty completing_loader]
  from t1 a have "check_bigquery_setup any_path_exists (project_env ''analytics-1'') = Inr True"
    by blast
  moreover from t2 b have
    "check_bigquery_setup no_path_exists (project_env ''analytics-1'') = Inr False \<and>
     pipelines (main no_path_exists (project_env ''analytics-1'') completing_loader) = [] \<and>
     ending (main no_path_exists (project_env ''analytics-1'') completing_loader) = Returned"
    by blast
  moreover from t3 c have
    "check_bigquery_setup any_path_exists Map.empty = Inr False \<and>
     pipelines (main any_path_exists Map.empty completing_loader) = [] \<and>
     ending (main any_path_exists Map.empty completing_loader) = Returned"
    by blast
  ultimately show ?thesis using a b c by blast
qed

text \<open>
  Claim C9 as stated fails: with the project ID at the placeholder and a credentials path
  under a directory that may not be searched, \<^verbatim>\<open>Path(...).exists()\<close> raises; the check
  does not return false and \<^verbatim>\<open>main\<close>, which calls it outside the \<^verbatim>\<open>try\<close> block, does
  not return early but ends with the exception.
\<close>

theorem main_raises_when_the_check_raises:
  "BIGQUERY_PROJECT_ID Map.empty = ''your-project-id'' \<and>
   forbidden_directory (BIGQUERY_CREDENTIALS Map.empty) =
     Inl (Exception ''[Errno 13] Permission denied'') \<and>
   check_bigquery_setup forbidden_directory Map.empty =
     Inl (Exception ''[Errno 13] Permission denied'') \<and>
   check_bigquery_setup forbidden_directory Map.empty \<noteq> Inr False \<and>
   ending (main forbidden_directory Map.empty completing_loader) =
     Propagated (Exception ''[Errno 13] Permission denied'') \<and>
   ending (main forbidden_directory Map.empty completing_loader) \<noteq> Returned \<and>
   pipelines (main forbidden_directory Map.empty completing_loader) = []"
  by (simp add: BIGQUERY_PROJECT_ID_def getenv_def forbidden_directory_def
      check_bigquery_setup_def main_def Let_def)




text \<open>
  Claim C7. The code at two environments that differ in \<^verbatim>\<open>BIGQUERY_PROJECT_ID\<close> alone,
  both passing the setup check: the script prints the project under "Pipeline
  Configuration" and in the names of the tables it reports as created, yet it hands the
  same pipeline and destination to the loading library for both. The project ID read from
  the environment does not determine the destination connection.
\<close>

theorem project_id_never_reaches_the_destination:
  "BIGQUERY_PROJECT_ID (project_env ''analytics-1'') = ''analytics-1'' \<and>
   BIGQUERY_PROJECT_ID (project_env ''analytics-2'') = ''analytics-2'' \<and>
   check_bigquery_setup any_path_exists (project_env ''analytics-1'') = Inr True \<and>
   check_bigquery_setup any_path_exists (project_env ''analytics-2'') = Inr True \<and>
   pipeline_configuration_report (project_env ''analytics-2'') =
     [''Pipeline Configuration:'',
      ''   Pipeline: jsonplaceholder_to_bigquery'',
      ''   Destination: BigQuery'',
      ''   Project: analytics-2'',
      ''   Dataset: api_ingestion'',
      ''   Location: US''] \<and>
   full_table (project_env ''analytics-2'') ''users'' = ''analytics-2.api_ingestion.users'' \<and>
   pipelines (main any_path_exists (project_env ''analytics-1'') completing_loader) =
     [\<lparr>pipeline_name = ''jsonplaceholder_to_bigquery'',
       destination = \<lparr>credentials = ''./phase3_warehouses/credentials/bigquery-key.json'',
                      location = ''US''\<rparr>,
       dataset_name = ''api_ingestion''\<rparr>] \<and>
   pipelines (main any_path_exists (project_env ''analytics-2'') completing_loader) =
     pipelines (main any_path_exists (project_env ''analytics-1'') completing_loader)"
proof -
  have a: "BIGQUERY_PROJECT_ID (project_env ''analytics-1'') = ''analytics-1''"
    "BIGQUERY_PROJECT_ID (project_env ''analytics-2'') = ''analytics-2''"
    "BIGQUERY_DATASET (project_env ''analytics-2'') = ''api_ingestion''"
    by (simp_all add: BIGQUERY_PROJECT_ID_def BIGQUERY_DATASET_def getenv_def project_env_def)
  then have b: "pipeline_configuration_report (project_env ''analytics-2'') =
     [''Pipeline Configuration:'',
      ''   Pipeline: jsonplaceholder_to_bigquery'',
      ''   Destination: BigQuery'',
      ''   Project: analytics-2'',
      ''   Dataset: api_ingestion'',
      ''   Location: US'']"
    "full_table (project_env ''analytics-2'') ''users'' = ''analytics-2.api_ingestion.users''"
    by (simp_all add: pipeline_configuration_report_def full_table_def)
  from a(1,2) b main_sample_project show ?thesis
    by simp
qed

subsection \<open>The records of the warehouse posts\<close>

lemma py_len_has_length: "py_len v = Inr n \<Longrightarrow> has_length v n"
  by (cases v) simp_all

text \<open>
  Claim C10. The \<open>i\<close>-th record that \<^verbatim>\<open>load_posts\<close> of \<^verbatim>\<open>bigquery_pipeline.py\<close> yields
  comes from the \<open>i\<close>-th element of the response: its \<^verbatim>\<open>post_id\<close>, \<^verbatim>\<open>title\<close> and
  \<^verbatim>\<open>body\<close> are the \<^verbatim>\<open>id\<close>, \<^verbatim>\<open>title\<close> and \<^verbatim>\<open>body\<close> of that element, its
  \<^verbatim>\<open>title_length\<close> is the length of its \<^verbatim>\<open>title\<close> and its \<^verbatim>\<open>body_length\<close> the length
  of its \<^verbatim>\<open>body\<close>. This holds for every yielded record, also in a run that later ends
  with an exception.
\<close>

theorem bigquery_post_lengths:
  assumes "i < length (yielded (bigquery_load_posts net clock))"
  shows "\<exists>resp data items post_id t b n m.
      net \<lparr>meth = GET, url = posts_url\<rparr> = Inr resp \<and> body resp = Some data \<and>
      py_iter data = Inr items \<and> i < length items \<and>
      subscript (items ! i) ''id'' = Inr post_id \<and>
      subscript (items ! i) ''title'' = Inr t \<and>
      subscript (items ! i) ''body'' = Inr b \<and>
      map_of (yielded (bigquery_load_posts net clock) ! i) ''post_id'' = Some post_id \<and>
      map_of (yielded (bigquery_load_posts net clock) ! i) ''title'' = Some t \<and>
      map_of (yielded (bigquery_load_posts net clock) ! i) ''body'' = Some b \<and>
      has_length t n \<and> has_length b m \<and>
      map_of (yielded (bigquery_load_posts net clock) ! i) ''title_length'' = Some (JInt (int n)) \<and>
      map_of (yielded (bigquery_load_posts net clock) ! i) ''body_length'' = Some (JInt (int m))"
proof -
  let ?r = "yielded (bigquery_load_posts net clock) ! i"
  from assms obtain resp data items where src:
    "net \<lparr>meth = GET, url = posts_url\<rparr> = Inr resp" "body resp = Some data"
    "py_iter data = Inr items" "i < length items"
    and row: "bigquery_post_row clock i (items ! i) = Inr ?r"
    unfolding bigquery_load_posts_def using run_extractor_nth [of i net posts_url "bigquery_post_row clock"]
    by blast
  from bigquery_post_row_Inr [OF row] obtain post_id user_id t b n m where
    f: "subscript (items ! i) ''id'' = Inr post_id" "subscript (items ! i) ''title'' = Inr t"
      "subscript (items ! i) ''body'' = Inr b"
    and len: "py_len t = Inr n" "py_len b = Inr m"
    and r: "?r = [(''post_id'', post_id), (''user_id'', user_id), (''title'', t), (''body'', b),
           (''title_length'', JInt (int n)), (''body_length'', JInt (int m)),
           (''loaded_at'', JStr (clock i))]"
    by blast
  have "map_of ?r ''post_id'' = Some post_id" "map_of ?r ''title'' = Some t"
    "map_of ?r ''body'' = Some b" "map_of ?r ''title_length'' = Some (JInt (int n))"
    "map_of ?r ''body_length'' = Some (JInt (int m))"
    unfolding r by simp_all
  moreover from len have "has_length t n" "has_length b m"
    by (simp_all add: py_len_has_length)
  ultimately show ?thesis using src f by blast
qed

lemma sample_bigquery_posts:
  "map (\<lambda>r. (map_of r ''post_id'', map_of r ''title'', map_of r ''body''))
     (yielded (bigquery_load_posts sample_posts_network sample_clock)) =
    [(Some (JInt 1), Some (JStr ''qui est esse''), Some (JStr ''est rerum'')),
     (Some (JInt 2), Some (JStr ''qui est esse''), Some (JStr ''est rerum'')),
     (Some (JInt 3), Some (JStr ''qui est esse''), Some (JStr ''est rerum''))]"
  by (simp add: bigquery_load_posts_def run_extractor_def fetch_def Let_def raise_for_status_def
      response_json_def sample_posts_network_def counted_items_def bigquery_post_row_def
      sample_post_def sample_clock_def)

theorem bigquery_post_lengths_witness:
  "1 < length (yielded (bigquery_load_posts sample_posts_network sample_clock)) \<and>
   subscript (sample_post 2) ''id'' = Inr (JInt 2) \<and>
   map_of (yielded (bigquery_load_posts sample_posts_network sample_clock) ! 1) ''post_id'' =
     Some (JInt 2) \<and>
   map_of (yielded (bigquery_load_posts sample_posts_network sample_clock) ! 1) ''title'' =
     Some (JStr ''qui est esse'') \<and>
   map_of (yielded (bigquery_load_posts sample_posts_network sample_clock) ! 1) ''body'' =
     Some (JStr ''est rerum'') \<and>
   map_of (yielded (bigquery_load_posts sample_posts_network sample_clock) ! 1) ''title_length'' =
     Some (JInt 12) \<and>
   map_of (yielded (bigquery_load_posts sample_posts_network sample_clock) ! 1) ''body_length'' =
     Some (JInt 9)"
proof -
  let ?rows = "yielded (bigquery_load_posts sample_posts_network sample_clock)"
  have "length (map (\<lambda>r. (map_of r ''post_id'', map_of r ''title'', map_of r ''body'')) ?rows) = 3"
    by (simp only: sample_bigquery_posts) simp
  then have h: "1 < length ?rows" by simp
  have "map (\<lambda>r. (map_of r ''post_id'', map_of r ''title'', map_of r ''body'')) ?rows ! 1 =
      (Some (JInt 2), Some (JStr ''qui est esse''), Some (JStr ''est rerum''))"
    by (simp only: sample_bigquery_posts) simp
  with h have row: "map_of (?rows ! 1) ''post_id'' = Some (JInt 2)"
    "map_of (?rows ! 1) ''title'' = Some (JStr ''qui est esse'')"
    "map_of (?rows ! 1) ''body'' = Some (JStr ''est rerum'')"
    by simp_all
  from bigquery_post_lengths [OF h] obtain t b n m where
    tb: "map_of (?rows ! 1) ''title'' = Some t" "map_of (?rows ! 1) ''body'' = Some b"
    and len: "has_length t n" "has_length b m"
    and out: "map_of (?rows ! 1) ''title_length'' = Some (JInt (int n))"
      "map_of (?rows ! 1) ''body_length'' = Some (JInt (int m))"
    by blast
  from tb row have "t = JStr ''qui est esse''" "b = JStr ''est rerum''" by simp_all
  with len have "n = 12" "m = 9" by simp_all
  with out have "map_of (?rows ! 1) ''title_length'' = Some (JInt 12)"
    "map_of (?rows ! 1) ''body_length'' = Some (JInt 9)"
    by simp_all
  moreover have "subscript (sample_post 2) ''id'' = Inr (JInt 2)"
    by (simp add: sample_post_def)
  ultimately show ?thesis using h row by simp
qed

subsection \<open>The users of the first script\<close>

lemma present_iff: "present v path \<longleftrightarrow> (\<exists>w. lookup v path = Inr w)"
  by (cases "lookup v path") (simp_all add: present_def)

lemma project_Inr: "lookup v path = Inr w \<Longrightarrow> project v path = w"
  by (simp add: project_def)

lemma simple_user_row_flat_user:
  assumes "has_expected_keys user"
  shows "simple_user_row user = Inr (flat_user user)"
proof -
  from assms have p:
    "present user [''id'']" "present user [''name'']" "present user [''username'']"
    "present user [''email'']" "present user [''phone'']" "present user [''website'']"
    "present user [''address'', ''street'']" "present user [''address'', ''suite'']"
    "present user [''address'', ''city'']" "present user [''address'', ''zipcode'']"
    "present user [''address'', ''geo'', ''lat'']" "present user [''address'', ''geo'', ''lng'']"
    "present user [''company'', ''name'']" "present user [''company'', ''catchPhrase'']"
    "present user [''company'', ''bs'']"
    by (simp_all add: has_expected_keys_def user_fields_def)
  have step: "and_then (lookup user path) f = f (project user path)" if "present user path"
    for path and f :: "json \<Rightarrow> error + row"
    using that by (auto simp add: present_iff project_def)
  show ?thesis
    unfolding simple_user_row_def
    by (simp only: step p) (simp add: flat_user_def user_fields_def)
qed

lemma run_extractor_all:
  assumes "net \<lparr>meth = GET, url = u\<rparr> = Inr resp"
    and "200 \<le> status_code resp" "status_code resp < 300"
    and "body resp = Some (JArr xs)"
    and "\<And>j x. x \<in> set xs \<Longrightarrow> mk j x = Inr (g j x)"
  shows "run_extractor net u mk =
    \<lparr>requests = [\<lparr>meth = GET, url = u\<rparr>], yielded = map (\<lambda>(j, x). g j x) (enumerate 0 xs), raised = None\<rparr>"
proof -
  have "fetch net u = ([\<lparr>meth = GET, url = u\<rparr>], Inr (JArr xs))"
    using assms(1-4) by (simp add: fetch_2xx response_json_def)
  moreover have "for_yield mk 0 xs = (map (\<lambda>(j, x). g j x) (enumerate 0 xs), None)"
    using assms(5) by (rule for_yield_all)
  ultimately show ?thesis
    by (simp add: run_extractor_def counted_items_def)
qed

lemma map_enumerate_const: "map (\<lambda>(j, x). f x) (enumerate k xs) = map f xs"
  by (induction xs arbitrary: k) simp_all

lemma is_flat_flat_user: "is_flat (flat_user user) \<longleftrightarrow> scalar_leaves user"
  by (simp add: is_flat_def flat_user_def scalar_leaves_def list_all_iff)

text \<open>
  Claim C6, as amended. When every user of a 2xx response has the expected nested keys,
  \<^verbatim>\<open>load_users\<close> of \<^verbatim>\<open>01_simple_pipeline.py\<close> yields one record for each user, in the
  order of the response, and ends normally; each record has the fifteen fields of
  \<open>user_fields\<close>, each the projection of the nested JSON at its path. The records are all
  flat exactly when the projected values of all users are scalars.
\<close>

theorem load_users_projects_each_user:
  assumes "net \<lparr>meth = GET, url = users_url\<rparr> = Inr resp"
    and "200 \<le> status_code resp" "status_code resp < 300"
    and "body resp = Some (JArr users)"
    and "list_all has_expected_keys users"
  shows "yielded (simple_load_users net) = map flat_user users \<and>
         raised (simple_load_users net) = None \<and>
         (\<forall>user \<in> set users. \<forall>f \<in> set user_fields.
            lookup user (snd f) = Inr (project user (snd f))) \<and>
         (list_all is_flat (yielded (simple_load_users net)) \<longleftrightarrow> list_all scalar_leaves users)"
proof -
  have "simple_user_row x = Inr (flat_user x)" if "x \<in> set users" for x
    using that assms(5) by (simp add: list_all_iff simple_user_row_flat_user)
  from run_extractor_all [of net users_url resp users "\<lambda>j. simple_user_row" "\<lambda>j. flat_user",
      OF assms(1-4) this]
  have y: "yielded (simple_load_users net) = map flat_user users"
    and r: "raised (simple_load_users net) = None"
    by (simp_all add: simple_load_users_def map_enumerate_const)
  have "list_all is_flat (map flat_user users) \<longleftrightarrow> list_all scalar_leaves users"
    by (simp add: list_all_iff is_flat_flat_user)
  moreover have "lookup user (snd f) = Inr (project user (snd f))"
    if "user \<in> set users" "f \<in> set user_fields" for user f
  proof -
    from that assms(5) have "present user (snd f)"
      by (simp add: list_all_iff has_expected_keys_def)
    then show ?thesis
      by (auto simp add: present_iff project_def)
  qed
  ultimately show ?thesis using y r by simp
qed

lemma sample_user_keys: "has_expected_keys (sample_user v)"
  by (simp add: has_expected_keys_def user_fields_def present_def sample_user_def)

lemma flat_sample_user:
  "flat_user (sample_user v) =
     [(''user_id'', JInt 1), (''name'', v), (''username'', JStr ''Bret''),
      (''email'', JStr ''Sincere@april.biz''), (''phone'', JStr ''1-770-736-8031''),
      (''website'', JStr ''hildegard.org''), (''street'', JStr ''Kulas Light''),
      (''suite'', JStr ''Apt. 556''), (''city'', JStr ''Gwenborough''),
      (''zipcode'', JStr ''92998-3874''), (''latitude'', JStr ''-37.3159''),
      (''longitude'', JStr ''81.1496''), (''company_name'', JStr ''Romaguera-Crona''),
      (''company_catchphrase'', JStr ''Multi-layered''), (''company_bs'', JStr ''harness'')]"
  by (simp add: flat_user_def user_fields_def project_def sample_user_def)

theorem load_users_projects_each_user_witness:
  "sample_users_network (JStr ''Leanne Graham'') \<lparr>meth = GET, url = users_url\<rparr> =
     Inr \<lparr>status_code = 200, body = Some (JArr [sample_user (JStr ''Leanne Graham'')])\<rparr> \<and>
   list_all has_expected_keys [sample_user (JStr ''Leanne Graham'')] \<and>
   yielded (simple_load_users (sample_users_network (JStr ''Leanne Graham''))) =
     [[(''user_id'', JInt 1), (''name'', JStr ''Leanne Graham''), (''username'', JStr ''Bret''),
       (''email'', JStr ''Sincere@april.biz''), (''phone'', JStr ''1-770-736-8031''),
       (''website'', JStr ''hildegard.org''), (''street'', JStr ''Kulas Light''),
       (''suite'', JStr ''Apt. 556''), (''city'', JStr ''Gwenborough''),
       (''zipcode'', JStr ''92998-3874''), (''latitude'', JStr ''-37.3159''),
       (''longitude'', JStr ''81.1496''), (''company_name'', JStr ''Romaguera-Crona''),
       (''company_catchphrase'', JStr ''Multi-layered''), (''company_bs'', JStr ''harness'')]] \<and>
   raised (simple_load_users (sample_users_network (JStr ''Leanne Graham''))) = None \<and>
   list_all is_flat (yielded (simple_load_users (sample_users_network (JStr ''Leanne Graham''))))"
proof -
  let ?resp = "\<lparr>status_code = 200, body = Some (JArr [sample_user (JStr ''Leanne Graham'')])\<rparr>"
  have a: "sample_users_network (JStr ''Leanne Graham'') \<lparr>meth = GET, url = users_url\<rparr> = Inr ?resp"
    by (simp add: sample_users_network_def)
  have b: "200 \<le> status_code ?resp" "status_code ?resp < 300"
    "body ?resp = Some (JArr [sample_user (JStr ''Leanne Graham'')])"
    by simp_all
  have c: "list_all has_expected_keys [sample_user (JStr ''Leanne Graham'')]"
    by (simp add: sample_user_keys)
  have d: "list_all scalar_leaves [sample_user (JStr ''Leanne Graham'')]"
    by (simp add: is_flat_flat_user [symmetric] flat_sample_user is_flat_def)
  from load_users_projects_each_user
      [of "sample_users_network (JStr ''Leanne Graham'')" ?resp
          "[sample_user (JStr ''Leanne Graham'')]", OF a b c] a c d
  show ?thesis
    by (simp add: flat_sample_user is_flat_def)
qed

text \<open>
  Claim C6 as stated fails: a user that has all the expected nested keys, and whose
  \<^verbatim>\<open>name\<close> is an object, gives a record that is not flat.
\<close>

theorem load_users_nested_value_not_flat:
  "has_expected_keys (sample_user (JObj [(''first'', JStr ''Leanne''), (''last'', JStr ''Graham'')])) \<and>
   yielded (simple_load_users
      (sample_users_network (JObj [(''first'', JStr ''Leanne''), (''last'', JStr ''Graham'')]))) =
     [[(''user_id'', JInt 1),
       (''name'', JObj [(''first'', JStr ''Leanne''), (''last'', JStr ''Graham'')]),
       (''username'', JStr ''Bret''),
       (''email'', JStr ''Sincere@april.biz''), (''phone'', JStr ''1-770-736-8031''),
       (''website'', JStr ''hildegard.org''), (''street'', JStr ''Kulas Light''),
       (''suite'', JStr ''Apt. 556''), (''city'', JStr ''Gwenborough''),
       (''zipcode'', JStr ''92998-3874''), (''latitude'', JStr ''-37.3159''),
       (''longitude'', JStr ''81.1496''), (''company_name'', JStr ''Romaguera-Crona''),
       (''company_catchphrase'', JStr ''Multi-layered''), (''company_bs'', JStr ''harness'')]] \<and>
   \<not> list_all is_flat (yielded (simple_load_users
      (sample_users_network (JObj [(''first'', JStr ''Leanne''), (''last'', JStr ''Graham'')]))))"
proof -
  let ?v = "JObj [(''first'', JStr ''Leanne''), (''last'', JStr ''Graham'')]"
  have row: "simple_user_row (sample_user ?v) = Inr (flat_user (sample_user ?v))"
    by (rule simple_user_row_flat_user) (rule sample_user_keys)
  have "yielded (simple_load_users (sample_users_network ?v)) = [flat_user (sample_user ?v)]"
    by (simp add: simple_load_users_def run_extractor_def fetch_def Let_def raise_for_status_def
        response_json_def sample_users_network_def counted_items_def row)
  then show ?thesis
    by (simp add: sample_user_keys flat_sample_user is_flat_def)
qed

subsection \<open>The incremental filter\<close>

lemma and_then_Inr_right [simp]: "and_then m Inr = m"
  by (cases m) simp_all

lemma post_ident_Some: "post_ident p = Some i \<longleftrightarrow> subscript p ''id'' = Inr (JInt i)"
  by (auto simp add: post_ident_def split: sum.splits json.splits)

lemma new_posts_filter:
  "list_all is_post ps \<Longrightarrow> new_posts n ps = Inr (filter (\<lambda>p. exceeds p n) ps)"
proof (induction ps)
  case Nil
  then show ?case by simp
next
  case (Cons p ps)
  from Cons.prems obtain i where i: "post_ident p = Some i"
    by (auto simp add: is_post_def)
  then have "subscript p ''id'' = Inr (JInt i)" by (simp add: post_ident_Some)
  with i Cons show ?case by (simp add: exceeds_def)
qed

lemma incremental_post_row_flat_post:
  assumes "is_post p"
  shows "incremental_post_row clock k p = Inr (flat_post (clock k) p)"
proof -
  from assms obtain i where "subscript p ''id'' = Inr (JInt i)"
    by (auto simp add: is_post_def post_ident_Some)
  then have "present p [''id'']" by (simp add: present_def)
  moreover from assms have "present p [''userId'']" "present p [''title'']" "present p [''body'']"
    by (simp_all add: is_post_def)
  ultimately show ?thesis
    by (auto simp add: incremental_post_row_def flat_post_def present_iff project_def)
qed

lemma is_flat_flat_post: "is_post p \<Longrightarrow> is_flat (flat_post t p)"
  by (auto simp add: is_post_def is_flat_def flat_post_def post_ident_Some project_def)

lemma post_id_flat_post:
  "is_post p \<Longrightarrow> exceeds p n \<Longrightarrow> \<exists>i. map_of (flat_post t p) ''post_id'' = Some (JInt i) \<and> n < i"
  by (auto simp add: exceeds_def flat_post_def project_def post_ident_Some split: option.splits)

text \<open>
  Claim C1. For a 2xx response whose body is a list of posts, and any stored
  \<open>last_value\<close>, \<^verbatim>\<open>load_posts_incremental\<close> yields, in order, the flat row of each post
  whose identifier strictly exceeds \<open>last_value\<close>, and of no other post; it ends normally,
  and the \<^verbatim>\<open>post_id\<close> of every yielded row is greater than \<open>last_value\<close>.
\<close>

theorem load_posts_incremental_keeps_new_posts:
  assumes "net \<lparr>meth = GET, url = posts_url\<rparr> = Inr resp"
    and "200 \<le> status_code resp" "status_code resp < 300"
    and "body resp = Some (JArr posts)"
    and "list_all is_post posts"
  shows "yielded (load_posts_incremental net clock last_value) =
           map (\<lambda>(k, p). flat_post (clock k) p) (enumerate 0 (filter (\<lambda>p. exceeds p last_value) posts)) \<and>
         raised (load_posts_incremental net clock last_value) = None \<and>
         list_all is_flat (yielded (load_posts_incremental net clock last_value)) \<and>
         (\<forall>r \<in> set (yielded (load_posts_incremental net clock last_value)).
            \<exists>i. map_of r ''post_id'' = Some (JInt i) \<and> last_value < i)"
proof -
  let ?new = "filter (\<lambda>p. exceeds p last_value) posts"
  let ?rows = "map (\<lambda>(k, p). flat_post (clock k) p) (enumerate 0 ?new)"
  have f: "fetch net posts_url = ([\<lparr>meth = GET, url = posts_url\<rparr>], Inr (JArr posts))"
    using assms(1-4) by (simp add: fetch_2xx response_json_def)
  have n: "new_posts last_value posts = Inr ?new"
    using assms(5) by (rule new_posts_filter)
  have new_posts: "is_post p \<and> exceeds p last_value" if "p \<in> set ?new" for p
    using that assms(5) by (simp add: list_all_iff)
  then have "for_yield (incremental_post_row clock) 0 ?new = (?rows, None)"
    by (intro for_yield_all) (simp add: incremental_post_row_flat_post)
  with f n have y: "yielded (load_posts_incremental net clock last_value) = ?rows"
    and r: "raised (load_posts_incremental net clock last_value) = None"
    by (simp_all add: load_posts_incremental_def)
  have each: "is_flat row \<and> (\<exists>i. map_of row ''post_id'' = Some (JInt i) \<and> last_value < i)"
    if "row \<in> set ?rows" for row
  proof -
    from that obtain k p where kp: "(k, p) \<in> set (enumerate 0 ?new)"
      and row: "row = flat_post (clock k) p"
      by auto
    from kp have "p \<in> set ?new"
      by (metis in_set_zipE enumerate_eq_zip)
    with new_posts [of p] row show ?thesis
      by (simp add: is_flat_flat_post post_id_flat_post)
  qed
  from y r each show ?thesis
    by (simp add: list_all_iff)
qed

subsection \<open>The cursor after a run\<close>

lemma advance_mark_Max: "advance_mark m xs = Max (insert m (set xs))"
proof -
  have "Max (set (m # xs)) = fold max xs m"
    by (rule Max.set_eq_fold)
  then show ?thesis by (simp add: advance_mark_def)
qed

lemma advance_mark_ge: "m \<le> advance_mark m xs" "x \<in> set xs \<Longrightarrow> x \<le> advance_mark m xs"
  by (simp_all add: advance_mark_Max)

lemma advance_mark_nonempty:
  assumes "xs \<noteq> []" and "\<And>x. x \<in> set xs \<Longrightarrow> m < x"
  shows "advance_mark m xs = Max (set xs)"
proof -
  from assms(1) obtain x where x: "x \<in> set xs" by (cases xs) auto
  with assms(2) have "m < x" by simp
  also from x have "x \<le> Max (set xs)" by simp
  finally have "max m (Max (set xs)) = Max (set xs)" by simp
  with assms(1) show ?thesis
    by (simp add: advance_mark_Max)
qed

lemma py_gt_mono:
  assumes "py_gt v n = Inr b" and "n \<le> n'"
  shows "\<exists>b'. py_gt v n' = Inr b' \<and> (b' \<longrightarrow> b)"
proof -
  from assms(2) have "(of_int n :: rat) \<le> of_int n'" by simp
  with assms show ?thesis
    by (cases "(v, n)" rule: py_gt.cases) auto
qed

lemma new_posts_Inr:
  "new_posts n ps = Inr new \<Longrightarrow> p \<in> set ps \<Longrightarrow>
     \<exists>v b. subscript p ''id'' = Inr v \<and> py_gt v n = Inr b \<and> (b \<longrightarrow> p \<in> set new)"
proof (induction ps arbitrary: new)
  case Nil
  then show ?case by simp
next
  case (Cons q qs)
  from Cons.prems(1) obtain v b rest where q: "subscript q ''id'' = Inr v" "py_gt v n = Inr b"
    and rest: "new_posts n qs = Inr rest" and new: "new = (if b then q # rest else rest)"
    by (auto simp add: and_then_eq_Inr)
  show ?case
  proof (cases "p = q")
    case True
    with q new show ?thesis by auto
  next
    case False
    with Cons.prems(2) have "p \<in> set qs" by simp
    from Cons.IH [OF rest this] new show ?thesis by auto
  qed
qed

lemma new_posts_none:
  "(\<And>p. p \<in> set ps \<Longrightarrow> \<exists>v. subscript p ''id'' = Inr v \<and> py_gt v n = Inr False) \<Longrightarrow>
   new_posts n ps = Inr []"
proof (induction ps)
  case Nil
  then show ?case by simp
next
  case (Cons q qs)
  from Cons.prems [of q] obtain v where "subscript q ''id'' = Inr v" "py_gt v n = Inr False"
    by auto
  moreover have "new_posts n qs = Inr []"
    by (rule Cons.IH) (simp add: Cons.prems)
  ultimately show ?case by simp
qed

lemma incremental_post_row_post_id:
  "incremental_post_row clock k p = Inr r \<Longrightarrow> \<exists>v. subscript p ''id'' = Inr v \<and> map_of r ''post_id'' = Some v"
  unfolding incremental_post_row_def and_then_eq_Inr by (elim exE conjE) auto

lemma for_yield_covers:
  assumes "for_yield mk k xs = (rows, None)" and "x \<in> set xs"
  shows "\<exists>j r. r \<in> set rows \<and> mk j x = Inr r"
proof -
  from assms(2) obtain i where i: "i < length xs" "xs ! i = x"
    by (auto simp add: in_set_conv_nth)
  from for_yield_complete [OF assms(1)] i have "i < length rows" by simp
  from for_yield_nth [OF assms(1) this] i this show ?thesis
    by (metis nth_mem)
qed

lemma load_posts_incremental_completed:
  assumes "raised (load_posts_incremental net clock n) = None"
  obtains resp data items new where
    "net \<lparr>meth = GET, url = posts_url\<rparr> = Inr resp" "200 \<le> status_code resp" "status_code resp < 300"
    "body resp = Some data" "py_iter data = Inr items" "new_posts n items = Inr new"
    "for_yield (incremental_post_row clock) 0 new = (yielded (load_posts_incremental net clock n), None)"
proof -
  obtain reqs res where f: "fetch net posts_url = (reqs, res)" by (cases "fetch net posts_url")
  with assms obtain data where data: "res = Inr data"
    by (cases res) (simp_all add: load_posts_incremental_def)
  from f data obtain resp where resp: "net \<lparr>meth = GET, url = posts_url\<rparr> = Inr resp"
      "200 \<le> status_code resp" "status_code resp < 300" "body resp = Some data"
    by (auto simp add: fetch_Inr)
  let ?sel = "and_then (py_iter data) (\<lambda>items.
                and_then (new_posts n items) (\<lambda>new.
                and_then (py_len data) (\<lambda>total. Inr new)))"
  from assms f data obtain new where sel: "?sel = Inr new"
    by (cases ?sel) (simp_all add: load_posts_incremental_def)
  then obtain items where items: "py_iter data = Inr items" "new_posts n items = Inr new"
    by (auto simp add: and_then_eq_Inr)
  obtain rows e where fy: "for_yield (incremental_post_row clock) 0 new = (rows, e)"
    by (cases "for_yield (incremental_post_row clock) 0 new")
  with f data sel assms have "e = None" "yielded (load_posts_incremental net clock n) = rows"
    by (simp_all add: load_posts_incremental_def)
  with fy resp items that show thesis by simp
qed

lemma new_posts_sound:
  "new_posts n ps = Inr new \<Longrightarrow> p \<in> set new \<Longrightarrow>
     p \<in> set ps \<and> (\<exists>v. subscript p ''id'' = Inr v \<and> py_gt v n = Inr True)"
proof (induction ps arbitrary: new)
  case Nil
  then show ?case by simp
next
  case (Cons q qs)
  from Cons.prems(1) obtain v b rest where q: "subscript q ''id'' = Inr v" "py_gt v n = Inr b"
    and rest: "new_posts n qs = Inr rest" and new: "new = (if b then q # rest else rest)"
    by (auto simp add: and_then_eq_Inr)
  show ?case
  proof (cases "p \<in> set rest")
    case True
    from Cons.IH [OF rest True] show ?thesis by simp
  next
    case False
    with Cons.prems(2) new have "b" "p = q" by (auto split: if_splits)
    with q show ?thesis by simp
  qed
qed

lemma py_iter_len: "py_iter d = Inr xs \<Longrightarrow> \<exists>n. py_len d = Inr n"
  by (cases d) simp_all

lemma set_cursor_values:
  "set (cursor_values rows) = {i. \<exists>r \<in> set rows. map_of r ''post_id'' = Some (JInt i)}"
  by (induction rows)
    (auto simp add: cursor_values_def map_filter_simps split: option.splits json.splits)

lemma int_cursor_iff: "int_cursor r \<longleftrightarrow> (\<exists>i. map_of r ''post_id'' = Some (JInt i))"
  by (auto simp add: int_cursor_def split: option.splits json.splits)

text \<open>
  Claim C2. After a run of \<^verbatim>\<open>load_posts_incremental\<close> that completes, with the cursor
  field an integer in each yielded record, the advanced mark is the maximum identifier of
  the records of that run (when it yielded any), and a second run against the same API with
  that mark yields no record, ends normally and leaves the mark where it is.
\<close>

theorem second_run_yields_nothing:
  assumes "raised (load_posts_incremental net clock last_value) = None"
    and "list_all int_cursor (yielded (load_posts_incremental net clock last_value))"
    and "mark = advance_mark last_value (cursor_values (yielded (load_posts_incremental net clock last_value)))"
  shows "(yielded (load_posts_incremental net clock last_value) \<noteq> [] \<longrightarrow>
            mark = Max (set (cursor_values (yielded (load_posts_incremental net clock last_value))))) \<and>
         yielded (load_posts_incremental net clock' mark) = [] \<and>
         raised (load_posts_incremental net clock' mark) = None \<and>
         advance_mark mark (cursor_values (yielded (load_posts_incremental net clock' mark))) = mark"
proof -
  let ?rows = "yielded (load_posts_incremental net clock last_value)"
  from assms(1) obtain resp data items new where
    resp: "net \<lparr>meth = GET, url = posts_url\<rparr> = Inr resp" "200 \<le> status_code resp"
      "status_code resp < 300" "body resp = Some data"
    and items: "py_iter data = Inr items"
    and new: "new_posts last_value items = Inr new"
    and fy: "for_yield (incremental_post_row clock) 0 new = (?rows, None)"
    by (rule load_posts_incremental_completed)
  have len: "length ?rows = length new"
    using fy by (rule for_yield_complete)
  have above: "last_value < i" if "i \<in> set (cursor_values ?rows)" for i
  proof -
    from that obtain r where r: "r \<in> set ?rows" "map_of r ''post_id'' = Some (JInt i)"
      by (auto simp add: set_cursor_values)
    then obtain j where j: "j < length ?rows" "?rows ! j = r"
      by (auto simp add: in_set_conv_nth)
    from for_yield_nth [OF fy j(1)] j have row: "incremental_post_row clock j (new ! j) = Inr r"
      and "j < length new"
      by simp_all
    then have "new ! j \<in> set new" by simp
    from new_posts_sound [OF new this] obtain v where
      "subscript (new ! j) ''id'' = Inr v" "py_gt v last_value = Inr True"
      by blast
    with incremental_post_row_post_id [OF row] r(2) show ?thesis by auto
  qed
  have first: "mark = Max (set (cursor_values ?rows))" if "?rows \<noteq> []"
  proof -
    from that obtain r where "r \<in> set ?rows" by (cases ?rows) auto
    with assms(2) obtain i where "map_of r ''post_id'' = Some (JInt i)"
      by (auto simp add: list_all_iff int_cursor_iff)
    with \<open>r \<in> set ?rows\<close> have "i \<in> set (cursor_values ?rows)"
      by (auto simp add: set_cursor_values)
    then have "cursor_values ?rows \<noteq> []" by auto
    then show ?thesis
      unfolding assms(3) using above by (rule advance_mark_nonempty)
  qed
  have seen: "\<exists>v. subscript p ''id'' = Inr v \<and> py_gt v mark = Inr False" if p: "p \<in> set items" for p
  proof -
    from new_posts_Inr [OF new p] obtain v b where
      v: "subscript p ''id'' = Inr v" "py_gt v last_value = Inr b" and b: "b \<longrightarrow> p \<in> set new"
      by blast
    show ?thesis
    proof (cases b)
      case True
      with b have "p \<in> set new" by simp
      from for_yield_covers [OF fy this] obtain j r where
        r: "r \<in> set ?rows" "incremental_post_row clock j p = Inr r"
        by blast
      from incremental_post_row_post_id [OF r(2)] v have id: "map_of r ''post_id'' = Some v"
        by simp
      from r(1) assms(2) obtain i where "map_of r ''post_id'' = Some (JInt i)"
        by (auto simp add: list_all_iff int_cursor_iff)
      with id have vi: "v = JInt i" by simp
      with id r(1) have "i \<in> set (cursor_values ?rows)"
        by (auto simp add: set_cursor_values)
      then have "i \<le> mark"
        unfolding assms(3) by (rule advance_mark_ge)
      with v vi show ?thesis by simp
    next
      case False
      have "last_value \<le> mark"
        unfolding assms(3) by (rule advance_mark_ge)
      from py_gt_mono [OF v(2) this] False v(1) show ?thesis by auto
    qed
  qed
  then have none: "new_posts mark items = Inr []"
    by (rule new_posts_none)
  from items obtain total where "py_len data = Inr total"
    by (auto dest: py_iter_len)
  with resp items none have second:
    "load_posts_incremental net clock' mark =
       \<lparr>requests = [\<lparr>meth = GET, url = posts_url\<rparr>], yielded = [], raised = None\<rparr>"
    by (simp add: load_posts_incremental_def fetch_2xx response_json_def)
  have "advance_mark mark (cursor_values []) = mark"
    by (simp add: advance_mark_def cursor_values_def map_filter_simps)
  with first second show ?thesis by simp
qed

lemma sample_incremental_first_run:
  "load_posts_incremental sample_posts_network sample_clock 0 =
     \<lparr>requests = [\<lparr>meth = GET, url = posts_url\<rparr>],
      yielded =
        [[(''post_id'', JInt 1), (''user_id'', JInt 1), (''title'', JStr ''qui est esse''),
          (''body'', JStr ''est rerum''), (''loaded_at'', JStr ''2024-01-01T00:00:00'')],
         [(''post_id'', JInt 2), (''user_id'', JInt 1), (''title'', JStr ''qui est esse''),
          (''body'', JStr ''est rerum''), (''loaded_at'', JStr ''2024-01-01T00:00:00'')],
         [(''post_id'', JInt 3), (''user_id'', JInt 1), (''title'', JStr ''qui est esse''),
          (''body'', JStr ''est rerum''), (''loaded_at'', JStr ''2024-01-01T00:00:00'')]],
      raised = None\<rparr>"
  by (simp add: load_posts_incremental_def fetch_def Let_def raise_for_status_def
      response_json_def sample_posts_network_def incremental_post_row_def
      sample_post_def sample_clock_def)

theorem second_run_yields_nothing_witness:
  "raised (load_posts_incremental sample_posts_network sample_clock 0) = None \<and>
   list_all int_cursor (yielded (load_posts_incremental sample_posts_network sample_clock 0)) \<and>
   cursor_values (yielded (load_posts_incremental sample_posts_network sample_clock 0)) = [1, 2, 3] \<and>
   advance_mark 0 [1, 2, 3] = 3 \<and>
   yielded (load_posts_incremental sample_posts_network sample_clock 3) = [] \<and>
   raised (load_posts_incremental sample_posts_network sample_clock 3) = None"
proof -
  let ?rows = "yielded (load_posts_incremental sample_posts_network sample_clock 0)"
  have a: "raised (load_posts_incremental sample_posts_network sample_clock 0) = None"
    by (simp add: sample_incremental_first_run)
  have b: "list_all int_cursor ?rows"
    by (simp add: sample_incremental_first_run int_cursor_def)
  have c: "cursor_values ?rows = [1, 2, 3]"
    by (simp add: sample_incremental_first_run cursor_values_def map_filter_simps)
  have d: "advance_mark 0 [1, 2, 3] = 3"
    by (simp add: advance_mark_def)
  with c have e: "3 = advance_mark 0 (cursor_values ?rows)"
    by simp
  from second_run_yields_nothing [OF a b e, of sample_clock] a b c d show ?thesis
    by simp
qed

subsection \<open>The incremental filter on three posts\<close>

lemma is_post_sample_post: "is_post (sample_post n)"
  by (simp add: is_post_def post_ident_def present_def project_def sample_post_def)

lemma exceeds_sample_post: "exceeds (sample_post n) m \<longleftrightarrow> m < n"
  by (simp add: exceeds_def post_ident_def sample_post_def)

lemma flat_post_sample_post:
  "flat_post t (sample_post n) =
     [(''post_id'', JInt n), (''user_id'', JInt 1), (''title'', JStr ''qui est esse''),
      (''body'', JStr ''est rerum''), (''loaded_at'', JStr t)]"
  by (simp add: flat_post_def project_def sample_post_def)

theorem load_posts_incremental_keeps_new_posts_witness:
  "sample_posts_network \<lparr>meth = GET, url = posts_url\<rparr> =
     Inr \<lparr>status_code = 200, body = Some (JArr [sample_post 1, sample_post 2, sample_post 3])\<rparr> \<and>
   list_all is_post [sample_post 1, sample_post 2, sample_post 3] \<and>
   yielded (load_posts_incremental sample_posts_network sample_clock 1) =
     [[(''post_id'', JInt 2), (''user_id'', JInt 1), (''title'', JStr ''qui est esse''),
       (''body'', JStr ''est rerum''), (''loaded_at'', JStr ''2024-01-01T00:00:00'')],
      [(''post_id'', JInt 3), (''user_id'', JInt 1), (''title'', JStr ''qui est esse''),
       (''body'', JStr ''est rerum''), (''loaded_at'', JStr ''2024-01-01T00:00:00'')]] \<and>
   raised (load_posts_incremental sample_posts_network sample_clock 1) = None"
proof -
  let ?posts = "[sample_post 1, sample_post 2, sample_post 3]"
  let ?resp = "\<lparr>status_code = 200, body = Some (JArr ?posts)\<rparr>"
  have a: "sample_posts_network \<lparr>meth = GET, url = posts_url\<rparr> = Inr ?resp"
    by (simp add: sample_posts_network_def)
  have b: "200 \<le> status_code ?resp" "status_code ?resp < 300" "body ?resp = Some (JArr ?posts)"
    by simp_all
  have c: "list_all is_post ?posts"
    by (simp add: is_post_sample_post)
  from load_posts_incremental_keeps_new_posts
      [of sample_posts_network ?resp ?posts sample_clock 1, OF a b c] a c
  show ?thesis
    by (simp add: exceeds_sample_post flat_post_sample_post sample_clock_def)
qed

end
